theory Spec2Isabelle
  imports Complex_Main
begin

section \<open>Data model\<close>

text \<open>
  The GetOpt package binds textual option descriptors to caller-owned variables and then
  scans a token list. The embedding follows \<^verbatim>\<open>getopt.go\<close> (descriptor parsing, type
  reconciliation, the argument loop) and the handler file (handlers, committers, the option
  collection).

  Go strings are byte sequences; \<^typ>\<open>string\<close> is a list of 8-bit characters. Go's \<^verbatim>\<open>int\<close>
  is taken at 64 bits and modelled as \<^typ>\<open>int\<close> with the wrap-around written out where the
  code does arithmetic on it (the counting committer). \<^verbatim>\<open>float64\<close> is a type parameter
  \<open>'f\<close>, and \<^verbatim>\<open>strconv.ParseFloat\<close> (standard library, IEEE rounding) is a function parameter
  \<open>pf\<close> of everything that converts a float.

  A destination is a Go pointer to a caller variable. Go pointers are typed, so a \<^verbatim>\<open>*bool\<close>
  never aliases a \<^verbatim>\<open>*int\<close>: the store has one heap per pointee type, and two pointers of one
  type alias exactly when their addresses are equal. Slices held in variables are modelled
  by their element lists. Pointers are addresses of allocated variables (a nil pointer is not
  a destination of the data model).
\<close>

type_synonym addr = nat

record 'f store =
  bools :: "addr \<Rightarrow> bool"
  ints :: "addr \<Rightarrow> int"
  floats :: "addr \<Rightarrow> 'f"
  strings :: "addr \<Rightarrow> string"
  intArrays :: "addr \<Rightarrow> int list"
  floatArrays :: "addr \<Rightarrow> 'f list"
  stringArrays :: "addr \<Rightarrow> string list"

text \<open>
  A value of Go's \<^verbatim>\<open>any\<close> as the variadic list of \<^verbatim>\<open>GetOptions\<close> can carry it: a string, a
  pointer of one of the seven types the type switches of \<^verbatim>\<open>parseOption\<close> name, or anything
  else.
\<close>

datatype any =
    AString string
  | PBool addr
  | PInt addr
  | PIntArray addr
  | PFloat addr
  | PFloatArray addr
  | PString addr
  | PStringArray addr
  | AOther

text \<open>
  Errors are values. The constructors are the messages of the \<^verbatim>\<open>errors.New\<close> calls of the
  source, and \<^verbatim>\<open>strconv\<close>'s \<^verbatim>\<open>*NumError\<close> (function, input, cause). In the spec's vocabulary:
  \<open>DescriptorNotUnderstood\<close> is MalformedDescriptor, \<open>TypeNotRecognized\<close> is
  UnsupportedDestinationType, \<open>DescriptorTypeMismatch\<close> is TypeMismatch,
  \<open>OptionAlreadyExists\<close> is NameConflict, \<open>ArgNotRecognized\<close> is UnrecognizedOption,
  \<open>MissingRequiredArgument\<close> is MissingArgument and \<open>NumError\<close> is ConversionError.
\<close>

datatype numError = ErrSyntax | ErrRange

datatype error =
    DescriptorNotUnderstood
  | TypeNotRecognized
  | DescriptorTypeMismatch
  | OptionAlreadyExists
  | DescriptorMustBeString
  | OddNumberOfArguments
  | ArgNotRecognized string
  | MissingRequiredArgument
  | NumError string string numError

text \<open>The outcome of a call that can return a value, return an error, or panic.\<close>

datatype 'a result = Ok 'a | Err error | Panic

section \<open>Library functions the code calls\<close>

text \<open>\<^verbatim>\<open>strings.HasPrefix\<close>.\<close>

definition HasPrefix :: "string \<Rightarrow> string \<Rightarrow> bool" where
  "HasPrefix s p = (take (length p) s = p)"

text \<open>
  \<^verbatim>\<open>strings.IndexRune\<close> for an ASCII rune: the index of the first byte equal to it, or -1.
\<close>

fun IndexRune :: "string \<Rightarrow> char \<Rightarrow> int" where
  "IndexRune [] c = -1"
| "IndexRune (x # xs) c =
     (if x = c then 0 else (let i = IndexRune xs c in if i < 0 then -1 else i + 1))"

text \<open>
  \<^verbatim>\<open>strconv.Atoi\<close> at 64 bits: an optional sign, then decimal digits only, read left to right;
  the first offending byte gives \<^verbatim>\<open>ErrSyntax\<close>, a magnitude that leaves the unsigned 64-bit
  range gives \<^verbatim>\<open>ErrRange\<close> as soon as it is reached, and so does a value outside the signed
  range. An empty digit string is a syntax error.
\<close>

definition digitVal :: "char \<Rightarrow> int option" where
  "digitVal c =
     (if (48::int) \<le> of_char c \<and> of_char c \<le> (57::int) then Some (of_char c - 48) else None)"

fun parseUint :: "string \<Rightarrow> int \<Rightarrow> numError + int" where
  "parseUint [] n = Inr n"
| "parseUint (c # cs) n =
     (case digitVal c of
        None \<Rightarrow> Inl ErrSyntax
      | Some d \<Rightarrow> if n * 10 + d > 2 ^ 64 - 1 then Inl ErrRange else parseUint cs (n * 10 + d))"

definition Atoi :: "string \<Rightarrow> error + int" where
  "Atoi s =
     (let neg = (s \<noteq> [] \<and> hd s = CHR ''-'');
          s1 = (if s \<noteq> [] \<and> (hd s = CHR ''-'' \<or> hd s = CHR ''+'') then tl s else s)
      in if s1 = [] then Inl (NumError ''Atoi'' s ErrSyntax)
         else (case parseUint s1 0 of
                 Inl e \<Rightarrow> Inl (NumError ''Atoi'' s e)
               | Inr n \<Rightarrow>
                   if \<not> neg \<and> n \<ge> 2 ^ 63 then Inl (NumError ''Atoi'' s ErrRange)
                   else if neg \<and> n > 2 ^ 63 then Inl (NumError ''Atoi'' s ErrRange)
                   else Inr (if neg then - n else n)))"

text \<open>Two's-complement wrap-around of a 64-bit \<^verbatim>\<open>int\<close>.\<close>

definition wrap64 :: "int \<Rightarrow> int" where
  "wrap64 x = (x + 2 ^ 63) mod 2 ^ 64 - 2 ^ 63"

section \<open>Committers\<close>

text \<open>
  \<^verbatim>\<open>optionSimpleCommitter[T]\<close> stores a value, \<^verbatim>\<open>optionCountingCommitter\<close> increments,
  \<^verbatim>\<open>optionArrayCommitter[T]\<close> appends. The generic types are instantiated at the element
  types the handlers use.
\<close>

datatype 'f optionCommitter =
    optionSimpleCommitterBool bool addr
  | optionSimpleCommitterInt int addr
  | optionSimpleCommitterFloat 'f addr
  | optionSimpleCommitterString string addr
  | optionCountingCommitter addr
  | optionArrayCommitterInt int addr
  | optionArrayCommitterFloat 'f addr
  | optionArrayCommitterString string addr

text \<open>The \<^verbatim>\<open>commit()\<close> method of each committer.\<close>

fun commit1 :: "'f optionCommitter \<Rightarrow> 'f store \<Rightarrow> 'f store" where
  "commit1 (optionSimpleCommitterBool v p) s = s\<lparr>bools := (bools s)(p := v)\<rparr>"
| "commit1 (optionSimpleCommitterInt v p) s = s\<lparr>ints := (ints s)(p := v)\<rparr>"
| "commit1 (optionSimpleCommitterFloat v p) s = s\<lparr>floats := (floats s)(p := v)\<rparr>"
| "commit1 (optionSimpleCommitterString v p) s = s\<lparr>strings := (strings s)(p := v)\<rparr>"
| "commit1 (optionCountingCommitter p) s = s\<lparr>ints := (ints s)(p := wrap64 (ints s p + 1))\<rparr>"
| "commit1 (optionArrayCommitterInt v p) s =
     s\<lparr>intArrays := (intArrays s)(p := intArrays s p @ [v])\<rparr>"
| "commit1 (optionArrayCommitterFloat v p) s =
     s\<lparr>floatArrays := (floatArrays s)(p := floatArrays s p @ [v])\<rparr>"
| "commit1 (optionArrayCommitterString v p) s =
     s\<lparr>stringArrays := (stringArrays s)(p := stringArrays s p @ [v])\<rparr>"

section \<open>Handlers\<close>

datatype optionType = optionNoArg | optionOptionalArg | optionRequiredArg

datatype optionHandler =
    optionSimpleHandler optionType bool addr
  | optionCountingHandler optionType addr
  | optionIntHandler optionType addr
  | optionIntArrayHandler optionType addr
  | optionFloatHandler optionType addr
  | optionFloatArrayHandler optionType addr
  | optionStringHandler optionType addr
  | optionStringArrayHandler optionType addr

fun getType :: "optionHandler \<Rightarrow> optionType" where
  "getType (optionSimpleHandler t v p) = t"
| "getType (optionCountingHandler t p) = t"
| "getType (optionIntHandler t p) = t"
| "getType (optionIntArrayHandler t p) = t"
| "getType (optionFloatHandler t p) = t"
| "getType (optionFloatArrayHandler t p) = t"
| "getType (optionStringHandler t p) = t"
| "getType (optionStringArrayHandler t p) = t"

text \<open>
  \<^verbatim>\<open>handle\<close>: the scalar handlers replace an empty argument list by the text of the zero
  value before converting; the array handlers index \<^verbatim>\<open>args[0]\<close> unguarded, which panics on
  an empty list.
\<close>

definition convInt :: "string \<Rightarrow> (int \<Rightarrow> 'f optionCommitter) \<Rightarrow> 'f optionCommitter result" where
  "convInt a mk = (case Atoi a of Inl e \<Rightarrow> Err e | Inr i \<Rightarrow> Ok (mk i))"

definition convFloat ::
  "(string \<Rightarrow> numError + 'f) \<Rightarrow> string \<Rightarrow> ('f \<Rightarrow> 'f optionCommitter) \<Rightarrow> 'f optionCommitter result"
where
  "convFloat pf a mk =
     (case pf a of Inl e \<Rightarrow> Err (NumError ''ParseFloat'' a e) | Inr f \<Rightarrow> Ok (mk f))"

fun handle ::
  "(string \<Rightarrow> numError + 'f) \<Rightarrow> optionHandler \<Rightarrow> string list \<Rightarrow> 'f optionCommitter result"
where
  "handle pf (optionSimpleHandler t v p) args = Ok (optionSimpleCommitterBool v p)"
| "handle pf (optionCountingHandler t p) args = Ok (optionCountingCommitter p)"
| "handle pf (optionIntHandler t p) args =
     (let args = (if length args < 1 then [''0''] else args)
      in convInt (hd args) (\<lambda>i. optionSimpleCommitterInt i p))"
| "handle pf (optionIntArrayHandler t p) args =
     (case args of [] \<Rightarrow> Panic | a # _ \<Rightarrow> convInt a (\<lambda>i. optionArrayCommitterInt i p))"
| "handle pf (optionFloatHandler t p) args =
     (let args = (if length args < 1 then [''0''] else args)
      in convFloat pf (hd args) (\<lambda>f. optionSimpleCommitterFloat f p))"
| "handle pf (optionFloatArrayHandler t p) args =
     (case args of [] \<Rightarrow> Panic | a # _ \<Rightarrow> convFloat pf a (\<lambda>f. optionArrayCommitterFloat f p))"
| "handle pf (optionStringHandler t p) args =
     (let args = (if length args < 1 then [[]] else args)
      in Ok (optionSimpleCommitterString (hd args) p))"
| "handle pf (optionStringArrayHandler t p) args =
     (case args of [] \<Rightarrow> Panic | a # _ \<Rightarrow> Ok (optionArrayCommitterString a p))"

section \<open>The option collection\<close>

record 'f optionCollection =
  handlers :: "string \<rightharpoonup> optionHandler"
  committers :: "'f optionCommitter list"

definition newOptionCollection :: "'f optionCollection" where
  "newOptionCollection = \<lparr>handlers = Map.empty, committers = []\<rparr>"

definition negatedName :: "string \<Rightarrow> string" where
  "negatedName name = ''no'' @ name"

definition checkNameConflict :: "'f optionCollection \<Rightarrow> string \<Rightarrow> bool \<Rightarrow> error option" where
  "checkNameConflict oc name negatable =
     (if handlers oc name \<noteq> None then Some OptionAlreadyExists
      else if negatable \<and> handlers oc (negatedName name) \<noteq> None then Some OptionAlreadyExists
      else None)"

text \<open>
  The assignment \<^verbatim>\<open>oc.handlers[name] = h\<close> that every \<^verbatim>\<open>add...Handler\<close> method performs; the
  parameter \<open>option\<close> of those methods is the destination pointer.
\<close>

definition addHandler :: "'f optionCollection \<Rightarrow> string \<Rightarrow> optionHandler \<Rightarrow> 'f optionCollection" where
  "addHandler oc name h = oc\<lparr>handlers := (handlers oc)(name \<mapsto> h)\<rparr>"

definition addSimpleHandler :: "'f optionCollection \<Rightarrow> string \<Rightarrow> addr \<Rightarrow> 'f optionCollection" where
  "addSimpleHandler oc name option = addHandler oc name (optionSimpleHandler optionNoArg True option)"

definition addNegatableHandler :: "'f optionCollection \<Rightarrow> string \<Rightarrow> addr \<Rightarrow> 'f optionCollection" where
  "addNegatableHandler oc name option =
     addHandler (addHandler oc name (optionSimpleHandler optionNoArg True option))
       (negatedName name) (optionSimpleHandler optionNoArg False option)"

definition addCountingHandler :: "'f optionCollection \<Rightarrow> string \<Rightarrow> addr \<Rightarrow> 'f optionCollection" where
  "addCountingHandler oc name option = addHandler oc name (optionCountingHandler optionNoArg option)"

definition addIntHandler :: "'f optionCollection \<Rightarrow> string \<Rightarrow> addr \<Rightarrow> 'f optionCollection" where
  "addIntHandler oc name option = addHandler oc name (optionIntHandler optionRequiredArg option)"

definition addOptionalIntHandler :: "'f optionCollection \<Rightarrow> string \<Rightarrow> addr \<Rightarrow> 'f optionCollection" where
  "addOptionalIntHandler oc name option = addHandler oc name (optionIntHandler optionOptionalArg option)"

definition addIntArrayHandler :: "'f optionCollection \<Rightarrow> string \<Rightarrow> addr \<Rightarrow> 'f optionCollection" where
  "addIntArrayHandler oc name option =
     addHandler oc name (optionIntArrayHandler optionRequiredArg option)"

definition addFloatHandler :: "'f optionCollection \<Rightarrow> string \<Rightarrow> addr \<Rightarrow> 'f optionCollection" where
  "addFloatHandler oc name option = addHandler oc name (optionFloatHandler optionRequiredArg option)"

definition addOptionalFloatHandler :: "'f optionCollection \<Rightarrow> string \<Rightarrow> addr \<Rightarrow> 'f optionCollection" where
  "addOptionalFloatHandler oc name option =
     addHandler oc name (optionFloatHandler optionOptionalArg option)"

definition addFloatArrayHandler :: "'f optionCollection \<Rightarrow> string \<Rightarrow> addr \<Rightarrow> 'f optionCollection" where
  "addFloatArrayHandler oc name option =
     addHandler oc name (optionFloatArrayHandler optionRequiredArg option)"

definition addStringHandler :: "'f optionCollection \<Rightarrow> string \<Rightarrow> addr \<Rightarrow> 'f optionCollection" where
  "addStringHandler oc name option = addHandler oc name (optionStringHandler optionRequiredArg option)"

definition addOptionalStringHandler :: "'f optionCollection \<Rightarrow> string \<Rightarrow> addr \<Rightarrow> 'f optionCollection" where
  "addOptionalStringHandler oc name option =
     addHandler oc name (optionStringHandler optionOptionalArg option)"

definition addStringArrayHandler :: "'f optionCollection \<Rightarrow> string \<Rightarrow> addr \<Rightarrow> 'f optionCollection" where
  "addStringArrayHandler oc name option =
     addHandler oc name (optionStringArrayHandler optionRequiredArg option)"

text \<open>\<^verbatim>\<open>optionCollection.commit\<close>: every committer, in slice order.\<close>

definition commit :: "'f optionCollection \<Rightarrow> 'f store \<Rightarrow> 'f store" where
  "commit oc s = foldl (\<lambda>s e. commit1 e s) s (committers oc)"

section \<open>Descriptor grammar\<close>

text \<open>
  The descriptor pattern is
  \<^verbatim>\<open>^([-_a-zA-Z0-9]+)([=:][bifs])?([!+@])?$\<close>.
  It is anchored at both ends and the three groups draw on disjoint byte classes, so a
  descriptor matches in at most one way: the name is the longest run of name bytes, and what
  follows is empty, a modifier, a type, or a type and a modifier. \<open>FindStringSubmatch\<close>
  returns the three groups of the match (an absent group is the empty string), or \<open>None\<close>
  where Go returns \<^verbatim>\<open>nil\<close>.
\<close>

definition isNameChar :: "char \<Rightarrow> bool" where
  "isNameChar c =
     (c = CHR ''-'' \<or> c = CHR ''_''
      \<or> ((97::int) \<le> of_char c \<and> of_char c \<le> (122::int))
      \<or> ((65::int) \<le> of_char c \<and> of_char c \<le> (90::int))
      \<or> ((48::int) \<le> of_char c \<and> of_char c \<le> (57::int)))"

definition isTypeMarker :: "char \<Rightarrow> bool" where
  "isTypeMarker c = (c = CHR ''='' \<or> c = CHR '':'')"

definition isTypeLetter :: "char \<Rightarrow> bool" where
  "isTypeLetter c = (c = CHR ''b'' \<or> c = CHR ''i'' \<or> c = CHR ''f'' \<or> c = CHR ''s'')"

definition isModifier :: "char \<Rightarrow> bool" where
  "isModifier c = (c = CHR ''!'' \<or> c = CHR ''+'' \<or> c = CHR ''@'')"

definition FindStringSubmatch :: "string \<Rightarrow> (string \<times> string \<times> string) option" where
  "FindStringSubmatch desc =
     (let m1 = takeWhile isNameChar desc; tail = dropWhile isNameChar desc
      in if m1 = [] then None
         else (case tail of
                 [] \<Rightarrow> Some (m1, [], [])
               | [a] \<Rightarrow> if isModifier a then Some (m1, [], [a]) else None
               | [a, b] \<Rightarrow> if isTypeMarker a \<and> isTypeLetter b then Some (m1, [a, b], []) else None
               | [a, b, c] \<Rightarrow>
                   if isTypeMarker a \<and> isTypeLetter b \<and> isModifier c then Some (m1, [a, b], [c])
                   else None
               | _ \<Rightarrow> None))"

text \<open>
  The attributes \<^verbatim>\<open>parseOption\<close> reads off the match (its local variables \<^verbatim>\<open>name\<close>,
  \<^verbatim>\<open>negatable\<close>, \<^verbatim>\<open>counting\<close>, \<^verbatim>\<open>optional\<close>, \<^verbatim>\<open>dArray\<close>, \<^verbatim>\<open>dType\<close>), as a record.
\<close>

record descriptor =
  dName :: string
  dNegatable :: bool
  dCounting :: bool
  dOptional :: bool
  dArray :: bool
  dType :: char

definition parseDescriptor :: "string \<Rightarrow> error + descriptor" where
  "parseDescriptor desc =
     (case FindStringSubmatch desc of
        None \<Rightarrow> Inl DescriptorNotUnderstood
      | Some (m1, m2, m3) \<Rightarrow>
          if length m3 > 0 \<and> \<not> (hd m3 = CHR ''!'' \<or> hd m3 = CHR ''+'' \<or> hd m3 = CHR ''@'')
          then Inl DescriptorNotUnderstood
          else Inr \<lparr>dName = m1,
                    dNegatable = (length m3 > 0 \<and> hd m3 = CHR ''!''),
                    dCounting = (length m3 > 0 \<and> hd m3 \<noteq> CHR ''!'' \<and> hd m3 = CHR ''+''),
                    dOptional = (length m2 > 0 \<and> hd m2 = CHR '':''),
                    dArray = (length m3 > 0 \<and> hd m3 \<noteq> CHR ''!'' \<and> hd m3 \<noteq> CHR ''+''
                              \<and> hd m3 = CHR ''@''),
                    dType = (if length m2 > 0 then m2 ! 1 else CHR ''?'')\<rparr>)"

section \<open>Type reconciliation\<close>

text \<open>
  The first type switch of \<^verbatim>\<open>parseOption\<close>: the element kind and the array sense of the
  pointer, \<open>None\<close> for the \<^verbatim>\<open>default\<close> branch.
\<close>

fun probe :: "any \<Rightarrow> (char \<times> bool) option" where
  "probe (PBool p) = Some (CHR ''b'', False)"
| "probe (PInt p) = Some (CHR ''i'', False)"
| "probe (PIntArray p) = Some (CHR ''i'', True)"
| "probe (PFloat p) = Some (CHR ''f'', False)"
| "probe (PFloatArray p) = Some (CHR ''f'', True)"
| "probe (PString p) = Some (CHR ''s'', False)"
| "probe (PStringArray p) = Some (CHR ''s'', True)"
| "probe (AString v) = None"
| "probe AOther = None"

text \<open>The chain of checks against the probed type; \<open>True\<close> where a branch returns the error.\<close>

definition typeMismatch :: "descriptor \<Rightarrow> char \<Rightarrow> bool \<Rightarrow> bool" where
  "typeMismatch d pType pArray =
     (if dType d \<noteq> CHR ''?'' \<and> dType d \<noteq> pType then True
      else if dCounting d \<and> \<not> (pType = CHR ''i'' \<and> \<not> pArray) then True
      else if dNegatable d \<and> pType \<noteq> CHR ''b'' then True
      else if dArray d \<noteq> pArray then True
      else if dOptional d \<and> pArray then True
      else if dOptional d \<and> \<not> (pType = CHR ''i'' \<or> pType = CHR ''s'' \<or> pType = CHR ''f'') then True
      else False)"

section \<open>Registration\<close>

text \<open>The second type switch of \<^verbatim>\<open>parseOption\<close>, which installs the handler.\<close>

fun setupHandler ::
  "'f optionCollection \<Rightarrow> descriptor \<Rightarrow> any \<Rightarrow> 'f optionCollection \<times> error option"
where
  "setupHandler oc d (PBool f) =
     (if dNegatable d then (addNegatableHandler oc (dName d) f, None)
      else (addSimpleHandler oc (dName d) f, None))"
| "setupHandler oc d (PInt f) =
     (if dCounting d then (addCountingHandler oc (dName d) f, None)
      else if dOptional d then (addOptionalIntHandler oc (dName d) f, None)
      else (addIntHandler oc (dName d) f, None))"
| "setupHandler oc d (PIntArray f) = (addIntArrayHandler oc (dName d) f, None)"
| "setupHandler oc d (PFloat f) =
     (if dOptional d then (addOptionalFloatHandler oc (dName d) f, None)
      else (addFloatHandler oc (dName d) f, None))"
| "setupHandler oc d (PFloatArray f) = (addFloatArrayHandler oc (dName d) f, None)"
| "setupHandler oc d (PString f) =
     (if dOptional d then (addOptionalStringHandler oc (dName d) f, None)
      else (addStringHandler oc (dName d) f, None))"
| "setupHandler oc d (PStringArray f) = (addStringArrayHandler oc (dName d) f, None)"
| "setupHandler oc d (AString v) = (oc, Some TypeNotRecognized)"
| "setupHandler oc d AOther = (oc, Some TypeNotRecognized)"

text \<open>
  \<^verbatim>\<open>parseOption\<close> mutates the collection in place and returns an error; here it returns the
  collection after the call with the error.
\<close>

definition parseOption ::
  "'f optionCollection \<Rightarrow> string \<Rightarrow> any \<Rightarrow> 'f optionCollection \<times> error option"
where
  "parseOption oc desc ptr =
     (case parseDescriptor desc of
        Inl e \<Rightarrow> (oc, Some e)
      | Inr d \<Rightarrow>
          (case probe ptr of
             None \<Rightarrow> (oc, Some TypeNotRecognized)
           | Some (pType, pArray) \<Rightarrow>
               if typeMismatch d pType pArray then (oc, Some DescriptorTypeMismatch)
               else (case checkNameConflict oc (dName d) (dNegatable d) of
                       Some e \<Rightarrow> (oc, Some e)
                     | None \<Rightarrow> setupHandler oc d ptr)))"

fun parseOptions :: "'f optionCollection \<Rightarrow> any list \<Rightarrow> 'f optionCollection \<times> error option" where
  "parseOptions oc (d # p # a) =
     (case d of
        AString desc \<Rightarrow>
          (case parseOption oc desc p of
             (oc', Some e) \<Rightarrow> (oc', Some e)
           | (oc', None) \<Rightarrow> parseOptions oc' a)
      | _ \<Rightarrow> (oc, Some DescriptorMustBeString))"
| "parseOptions oc [x] = (oc, Some OddNumberOfArguments)"
| "parseOptions oc [] = (oc, None)"

section \<open>Scanning and committing\<close>

text \<open>
  One iteration of the loop of \<^verbatim>\<open>processArgs\<close>, from the test of the loop to the call of the
  handler: it leaves the loop with the remainder (\<^verbatim>\<open>break\<close>, or the loop condition fails),
  returns an error, panics in the handler, or goes round again with a committer to append
  and a shorter \<^verbatim>\<open>rest\<close>.
\<close>

datatype 'f step =
    StepBreak "string list"
  | StepReturn error
  | StepPanic
  | StepContinue "'f optionCommitter" "string list"

definition callHandle ::
  "(string \<Rightarrow> numError + 'f) \<Rightarrow> optionHandler \<Rightarrow> string list \<Rightarrow> string list \<Rightarrow> 'f step"
where
  "callHandle pf h zeroOrOne rest =
     (case handle pf h zeroOrOne of
        Err e \<Rightarrow> StepReturn e
      | Panic \<Rightarrow> StepPanic
      | Ok c \<Rightarrow> StepContinue c rest)"

definition processArgs_body ::
  "(string \<Rightarrow> numError + 'f) \<Rightarrow> (string \<rightharpoonup> optionHandler) \<Rightarrow> string list \<Rightarrow> 'f step"
where
  "processArgs_body pf hs rest0 =
     (case rest0 of
        [] \<Rightarrow> StepBreak rest0
      | tok # rest \<Rightarrow>
          if \<not> HasPrefix tok ''--'' then StepBreak rest0
          else
            (let name0 = drop 2 tok
             in if length name0 = 0 then StepBreak rest
                else
                  (let i = IndexRune name0 CHR ''='';
                       zeroOrOne = (if i > -1 then [drop (nat (i + 1)) name0] else []);
                       name = (if i > -1 then take (nat i) name0 else name0)
                   in (case hs name of
                         None \<Rightarrow> StepReturn (ArgNotRecognized name)
                       | Some h \<Rightarrow>
                           if getType h = optionNoArg then callHandle pf h zeroOrOne rest
                           else if length zeroOrOne > 0 then callHandle pf h zeroOrOne rest
                           else if length rest < 1 then
                             (if getType h = optionRequiredArg then StepReturn MissingRequiredArgument
                              else callHandle pf h zeroOrOne rest)
                           else if getType h = optionOptionalArg \<and> HasPrefix (hd rest) ''--''
                             then callHandle pf h zeroOrOne rest
                           else callHandle pf h (take 1 rest) (drop 1 rest)))))"

lemma callHandle_Continue:
  "callHandle pf h z r = StepContinue c r' \<Longrightarrow> r' = r"
  by (auto simp: callHandle_def split: result.splits)

lemma processArgs_body_shorter:
  "processArgs_body pf hs rest = StepContinue c r \<Longrightarrow> length r < length rest"
  by (auto simp: processArgs_body_def Let_def split: list.splits if_splits option.splits
      dest!: callHandle_Continue)

text \<open>The loop: each committer is appended to the collection's \<^verbatim>\<open>committers\<close>.\<close>

function processArgs_loop ::
  "(string \<Rightarrow> numError + 'f) \<Rightarrow> 'f optionCollection \<Rightarrow> string list
    \<Rightarrow> 'f optionCollection \<times> string list result"
where
  "processArgs_loop pf oc rest =
     (case processArgs_body pf (handlers oc) rest of
        StepBreak r \<Rightarrow> (oc, Ok r)
      | StepReturn e \<Rightarrow> (oc, Err e)
      | StepPanic \<Rightarrow> (oc, Panic)
      | StepContinue c r \<Rightarrow> processArgs_loop pf (oc\<lparr>committers := committers oc @ [c]\<rparr>) r)"
  by pat_completeness auto
termination
  by (relation "measure (\<lambda>(pf, oc, rest). length rest)")
    (auto dest: processArgs_body_shorter)

text \<open>
  What a call of \<^verbatim>\<open>processArgs\<close> or \<^verbatim>\<open>GetOptions\<close> gives back: the slice and the error, or a
  panic.
\<close>

datatype outcome = Returns "string list" "error option" | Panics

text \<open>
  \<^verbatim>\<open>processArgs\<close>: every error return of the loop gives back \<^verbatim>\<open>args\<close>; after the loop the
  collection commits and \<^verbatim>\<open>rest\<close> is returned. The collection and the store after the call
  are returned with the outcome.
\<close>

definition processArgs ::
  "(string \<Rightarrow> numError + 'f) \<Rightarrow> 'f optionCollection \<Rightarrow> 'f store \<Rightarrow> string list
    \<Rightarrow> 'f optionCollection \<times> 'f store \<times> outcome"
where
  "processArgs pf oc s args =
     (case processArgs_loop pf oc args of
        (oc', Err e) \<Rightarrow> (oc', s, Returns args (Some e))
      | (oc', Panic) \<Rightarrow> (oc', s, Panics)
      | (oc', Ok rest) \<Rightarrow> (oc', commit oc' s, Returns rest None))"

text \<open>\<^verbatim>\<open>GetOptions\<close>: a fresh collection, registration, then the scan.\<close>

definition GetOptions ::
  "(string \<Rightarrow> numError + 'f) \<Rightarrow> 'f store \<Rightarrow> string list \<Rightarrow> any list \<Rightarrow> 'f store \<times> outcome"
where
  "GetOptions pf s args a =
     (case parseOptions newOptionCollection a of
        (oc, Some e) \<Rightarrow> (s, Returns args (Some e))
      | (oc, None) \<Rightarrow> (case processArgs pf oc s args of (oc', s', r) \<Rightarrow> (s', r)))"

text \<open>
  The pending updates of a scan, in the order the loop produces them: the committer of the
  first iteration, then those of the scan of what that iteration leaves. This is the spec's
  "ordered list of Pending Updates", read off the loop body.
\<close>

function pendingUpdates ::
  "(string \<Rightarrow> numError + 'f) \<Rightarrow> (string \<rightharpoonup> optionHandler) \<Rightarrow> string list
    \<Rightarrow> 'f optionCommitter list"
where
  "pendingUpdates pf hs rest =
     (case processArgs_body pf hs rest of
        StepContinue c r \<Rightarrow> c # pendingUpdates pf hs r
      | _ \<Rightarrow> [])"
  by pat_completeness auto
termination
  by (relation "measure (\<lambda>(pf, hs, rest). length rest)")
    (auto dest: processArgs_body_shorter)

section \<open>The reconciliation rules as the spec words them\<close>

text \<open>
  The destination shapes and the rules of type reconciliation, written from the spec's
  sentences rather than from the code, to be compared with \<open>probe\<close> and \<open>typeMismatch\<close>:
  the seven supported shapes; the element kind of a destination; whether it is a sequence;
  and the five ways a descriptor can disagree with a destination (a declared type letter
  that differs from the element kind, counting without a scalar integer, negatable without
  a scalar boolean, declared sequence-ness that differs from the destination's, and the
  optional marker on a sequence or a boolean).
\<close>

fun spec_supported :: "any \<Rightarrow> bool" where
  "spec_supported (PBool p) = True"
| "spec_supported (PInt p) = True"
| "spec_supported (PFloat p) = True"
| "spec_supported (PString p) = True"
| "spec_supported (PIntArray p) = True"
| "spec_supported (PFloatArray p) = True"
| "spec_supported (PStringArray p) = True"
| "spec_supported (AString v) = False"
| "spec_supported AOther = False"

fun spec_elementKind :: "any \<Rightarrow> char" where
  "spec_elementKind (PBool p) = CHR ''b''"
| "spec_elementKind (PInt p) = CHR ''i''"
| "spec_elementKind (PIntArray p) = CHR ''i''"
| "spec_elementKind (PFloat p) = CHR ''f''"
| "spec_elementKind (PFloatArray p) = CHR ''f''"
| "spec_elementKind (PString p) = CHR ''s''"
| "spec_elementKind (PStringArray p) = CHR ''s''"
| "spec_elementKind (AString v) = CHR ''?''"
| "spec_elementKind AOther = CHR ''?''"

fun spec_isSequence :: "any \<Rightarrow> bool" where
  "spec_isSequence (PIntArray p) = True"
| "spec_isSequence (PFloatArray p) = True"
| "spec_isSequence (PStringArray p) = True"
| "spec_isSequence (PBool p) = False"
| "spec_isSequence (PInt p) = False"
| "spec_isSequence (PFloat p) = False"
| "spec_isSequence (PString p) = False"
| "spec_isSequence (AString v) = False"
| "spec_isSequence AOther = False"

definition spec_ruleViolated :: "descriptor \<Rightarrow> any \<Rightarrow> bool" where
  "spec_ruleViolated d ptr =
     ((dType d \<noteq> CHR ''?'' \<and> dType d \<noteq> spec_elementKind ptr)
      \<or> (dCounting d \<and> \<not> (spec_elementKind ptr = CHR ''i'' \<and> \<not> spec_isSequence ptr))
      \<or> (dNegatable d \<and> \<not> (spec_elementKind ptr = CHR ''b'' \<and> \<not> spec_isSequence ptr))
      \<or> (dArray d \<noteq> spec_isSequence ptr)
      \<or> (dOptional d \<and> (spec_isSequence ptr \<or> spec_elementKind ptr = CHR ''b'')))"

text \<open>
  The token list of repeated occurrences of one option, each given inline (\<^verbatim>\<open>--name=v\<close>) or
  separately (\<^verbatim>\<open>--name\<close>, \<^verbatim>\<open>v\<close>): notation for the statements about repetition.
\<close>

abbreviation occurrences :: "string \<Rightarrow> (bool \<times> string) list \<Rightarrow> string list" where
  "occurrences name occs \<equiv>
     concat (map (\<lambda>(inl, v). if inl then [''--'' @ name @ ''='' @ v] else [''--'' @ name, v]) occs)"

section \<open>Sample inputs\<close>

text \<open>
  A float conversion and a store at which the theorems below are instantiated: floats are
  reals here, and the conversion knows the two literals the instances use.
\<close>

definition sampleParseFloat :: "string \<Rightarrow> numError + real" where
  "sampleParseFloat a =
     (if a = ''0'' then Inr 0 else if a = ''5.5'' then Inr 5.5 else Inl ErrSyntax)"

definition sampleStore :: "real store" where
  "sampleStore =
     \<lparr>bools = (\<lambda>p. False), ints = (\<lambda>p. 3), floats = (\<lambda>p. 3.14), strings = (\<lambda>p. ''hello''),
      intArrays = (\<lambda>p. []), floatArrays = (\<lambda>p. []), stringArrays = (\<lambda>p. [])\<rparr>"

section \<open>Basic facts about the loop\<close>

declare processArgs_loop.simps [simp del]
declare pendingUpdates.simps [simp del]

lemma HasPrefix_dashes [simp]: "HasPrefix (CHR ''-'' # CHR ''-'' # x) ''--''"
  by (simp add: HasPrefix_def)

lemma IndexRune_absent: "c \<notin> set xs \<Longrightarrow> IndexRune xs c = -1"
  by (induction xs) (auto simp: Let_def)

lemma IndexRune_first: "c \<notin> set xs \<Longrightarrow> IndexRune (xs @ c # ys) c = int (length xs)"
  by (induction xs) (auto simp: Let_def)

lemma body_inline:
  assumes "hs name = Some h" and "name \<noteq> []" and "CHR ''='' \<notin> set name"
  shows "processArgs_body pf hs ((''--'' @ name @ ''='' @ v) # rest) = callHandle pf h [v] rest"
proof -
  have "nat (int (length name) + 1) = Suc (length name)" by simp
  with assms show ?thesis
    by (simp add: processArgs_body_def Let_def IndexRune_first)
qed

lemma body_separate:
  assumes "hs name = Some h" and "name \<noteq> []" and "CHR ''='' \<notin> set name"
    and "getType h = optionRequiredArg"
  shows "processArgs_body pf hs ((''--'' @ name) # v # rest) = callHandle pf h [v] rest"
  using assms by (simp add: processArgs_body_def Let_def IndexRune_absent)

lemma body_absent:
  assumes "hs name = Some h" and "name \<noteq> []" and "CHR ''='' \<notin> set name"
    and "getType h = optionOptionalArg" and "rest = [] \<or> HasPrefix (hd rest) ''--''"
  shows "processArgs_body pf hs ((''--'' @ name) # rest) = callHandle pf h [] rest"
  using assms by (auto simp: processArgs_body_def Let_def IndexRune_absent)

lemma body_noarg:
  assumes "hs name = Some h" and "name \<noteq> []" and "CHR ''='' \<notin> set name"
    and "getType h = optionNoArg"
  shows "processArgs_body pf hs ((''--'' @ name) # rest) = callHandle pf h [] rest"
  using assms by (auto simp: processArgs_body_def Let_def IndexRune_absent)

lemma body_marker: "processArgs_body pf hs (''--'' # rest) = StepBreak rest"
  by (simp add: processArgs_body_def)

lemma loop_Break:
  "processArgs_body pf (handlers oc) rest = StepBreak r \<Longrightarrow> processArgs_loop pf oc rest = (oc, Ok r)"
  by (simp add: processArgs_loop.simps)

lemma loop_Return:
  "processArgs_body pf (handlers oc) rest = StepReturn e \<Longrightarrow> processArgs_loop pf oc rest = (oc, Err e)"
  by (simp add: processArgs_loop.simps)

lemma loop_Panic:
  "processArgs_body pf (handlers oc) rest = StepPanic \<Longrightarrow> processArgs_loop pf oc rest = (oc, Panic)"
  by (simp add: processArgs_loop.simps)

lemma loop_Continue:
  "processArgs_body pf (handlers oc) rest = StepContinue c r \<Longrightarrow>
   processArgs_loop pf oc rest = processArgs_loop pf (oc\<lparr>committers := committers oc @ [c]\<rparr>) r"
  by (simp add: processArgs_loop.simps)

text \<open>The loop never touches the handler table.\<close>

lemma loop_handlers: "processArgs_loop pf oc rest = (oc', r) \<Longrightarrow> handlers oc' = handlers oc"
proof (induction pf oc rest arbitrary: oc' r rule: processArgs_loop.induct)
  case (1 pf oc rest)
  show ?case
  proof (cases "processArgs_body pf (handlers oc) rest")
    case (StepContinue c r')
    from 1(2) have "processArgs_loop pf (oc\<lparr>committers := committers oc @ [c]\<rparr>) r' = (oc', r)"
      by (simp add: loop_Continue [OF StepContinue])
    from 1(1) [OF StepContinue this] show ?thesis by simp
  next
    case (StepBreak x)
    with 1(2) show ?thesis by (simp add: loop_Break)
  next
    case (StepReturn x)
    with 1(2) show ?thesis by (simp add: loop_Return)
  next
    case StepPanic
    with 1(2) show ?thesis by (simp add: loop_Panic)
  qed
qed

lemmas scan_eval = processArgs_def processArgs_loop.simps processArgs_body_def callHandle_def
  Let_def commit_def convInt_def convFloat_def Atoi_def digitVal_def

lemmas register_eval = parseOption_def parseDescriptor_def FindStringSubmatch_def isNameChar_def
  isTypeMarker_def isTypeLetter_def isModifier_def typeMismatch_def checkNameConflict_def
  newOptionCollection_def addHandler_def negatedName_def
  addSimpleHandler_def addNegatableHandler_def addCountingHandler_def addIntHandler_def
  addOptionalIntHandler_def addIntArrayHandler_def addFloatHandler_def addOptionalFloatHandler_def
  addFloatArrayHandler_def addStringHandler_def addOptionalStringHandler_def
  addStringArrayHandler_def

text \<open>The errors a scan can return: the two of the loop, and the conversions' \<open>NumError\<close>.\<close>

lemma handle_error_kind:
  "handle pf h z = Err e \<Longrightarrow> \<exists>f x c. e = NumError f x c"
  by (cases h)
    (auto simp: convInt_def convFloat_def Atoi_def Let_def
      split: list.splits sum.splits if_splits)

lemma body_error_kind:
  assumes "processArgs_body pf hs rest = StepReturn e"
  shows "(\<exists>n. e = ArgNotRecognized n) \<or> e = MissingRequiredArgument \<or> (\<exists>f x c. e = NumError f x c)"
proof -
  have ch: "\<And>h z r. callHandle pf h z r = StepReturn e \<Longrightarrow> \<exists>f x c. e = NumError f x c"
    by (auto simp: callHandle_def split: result.splits dest: handle_error_kind)
  from assms show ?thesis
    by (auto simp: processArgs_body_def Let_def split: list.splits if_splits option.splits
        dest!: ch)
qed

lemma loop_error_kind:
  "processArgs_loop pf oc rest = (oc', Err e) \<Longrightarrow>
   (\<exists>n. e = ArgNotRecognized n) \<or> e = MissingRequiredArgument \<or> (\<exists>f x c. e = NumError f x c)"
proof (induction pf oc rest arbitrary: oc' rule: processArgs_loop.induct)
  case (1 pf oc rest)
  show ?case
  proof (cases "processArgs_body pf (handlers oc) rest")
    case (StepContinue c r')
    from 1(2) have "processArgs_loop pf (oc\<lparr>committers := committers oc @ [c]\<rparr>) r' = (oc', Err e)"
      by (simp add: loop_Continue [OF StepContinue])
    from 1(1) [OF StepContinue this] show ?thesis .
  next
    case (StepBreak x)
    with 1(2) show ?thesis by (simp add: loop_Break)
  next
    case (StepReturn x)
    with 1(2) have "x = e" by (simp add: loop_Return)
    with StepReturn show ?thesis by (auto dest: body_error_kind)
  next
    case StepPanic
    with 1(2) show ?thesis by (simp add: loop_Panic)
  qed
qed

section \<open>C1: a failed scan changes nothing\<close>

text \<open>
  Claim C1. If \<^verbatim>\<open>processArgs\<close> returns an error, for any token list and any collection, the
  store after the call is the store before it, the returned slice is the original token
  list, the handler table is unchanged, and the error is an unrecognized option, a missing
  required argument or a conversion error. Whatever the outcome, the store after the call is
  the store before it or the result of \<^verbatim>\<open>commit\<close>, and the latter only when the call returns
  without error. An error of \<^verbatim>\<open>GetOptions\<close> (registration or scan) likewise leaves the store
  as it was and returns the original token list.
\<close>

theorem scan_error_atomic:
  "(processArgs pf oc s args = (oc', s', Returns r (Some e)) \<longrightarrow>
      s' = s \<and> r = args \<and> handlers oc' = handlers oc
      \<and> ((\<exists>n. e = ArgNotRecognized n) \<or> e = MissingRequiredArgument
          \<or> (\<exists>f x c. e = NumError f x c)))
   \<and> (processArgs pf oc s args = (oc', s', out) \<longrightarrow>
        s' = s \<or> (s' = commit oc' s \<and> (\<exists>rest. out = Returns rest None)))
   \<and> (GetOptions pf s args a = (s'', Returns r' (Some e')) \<longrightarrow> s'' = s \<and> r' = args)"
proof -
  obtain oc1 res where l: "processArgs_loop pf oc args = (oc1, res)"
    by (cases "processArgs_loop pf oc args")
  have A: "s' = s \<and> r = args \<and> handlers oc' = handlers oc
      \<and> ((\<exists>n. e = ArgNotRecognized n) \<or> e = MissingRequiredArgument
          \<or> (\<exists>f x c. e = NumError f x c))"
    if a: "processArgs pf oc s args = (oc', s', Returns r (Some e))"
  proof -
    from a l have "res = Err e \<and> oc1 = oc' \<and> s' = s \<and> r = args"
      by (cases res) (auto simp: processArgs_def)
    with l show ?thesis
      using loop_handlers [of pf oc args oc' "Err e"] loop_error_kind [of pf oc args oc' e]
      by simp
  qed
  have B: "s' = s \<or> (s' = commit oc' s \<and> (\<exists>rest. out = Returns rest None))"
    if a: "processArgs pf oc s args = (oc', s', out)"
    using a l by (cases res) (auto simp: processArgs_def)
  have C: "s'' = s \<and> r' = args"
    if a: "GetOptions pf s args a = (s'', Returns r' (Some e'))"
  proof -
    obtain oc0 er where p: "parseOptions (newOptionCollection :: 'a optionCollection) a = (oc0, er)"
      by (cases "parseOptions (newOptionCollection :: 'a optionCollection) a")
    show ?thesis
    proof (cases er)
      case (Some x)
      with a p show ?thesis by (simp add: GetOptions_def)
    next
      case None
      obtain oc2 res2 where l2: "processArgs_loop pf oc0 args = (oc2, res2)"
        by (cases "processArgs_loop pf oc0 args")
      from a p None l2 show ?thesis
        by (cases res2) (auto simp: GetOptions_def processArgs_def)
    qed
  qed
  from A B C show ?thesis by blast
qed

theorem scan_error_atomic_witness:
  "processArgs sampleParseFloat
      \<lparr>handlers = [''value'' \<mapsto> optionIntHandler optionRequiredArg 0], committers = []\<rparr>
      sampleStore [''--value'', ''abc'']
    = (\<lparr>handlers = [''value'' \<mapsto> optionIntHandler optionRequiredArg 0], committers = []\<rparr>,
       sampleStore, Returns [''--value'', ''abc''] (Some (NumError ''Atoi'' ''abc'' ErrSyntax)))
   \<and> GetOptions sampleParseFloat sampleStore [''--value'', ''abc''] [AString ''value=i'', PInt 0]
    = (sampleStore, Returns [''--value'', ''abc''] (Some (NumError ''Atoi'' ''abc'' ErrSyntax)))"
proof -
  let ?oc = "\<lparr>handlers = [''value'' \<mapsto> optionIntHandler optionRequiredArg 0],
      committers = ([] :: real optionCommitter list)\<rparr>"
  have h1: "\<exists>s' r. processArgs sampleParseFloat ?oc sampleStore [''--value'', ''abc'']
      = (?oc, s', Returns r (Some (NumError ''Atoi'' ''abc'' ErrSyntax)))"
    by (simp add: scan_eval)
  have h2: "\<exists>s' r. GetOptions sampleParseFloat sampleStore [''--value'', ''abc'']
       [AString ''value=i'', PInt 0] = (s', Returns r (Some (NumError ''Atoi'' ''abc'' ErrSyntax)))"
    by (simp add: GetOptions_def register_eval scan_eval)
  from h1 h2 show ?thesis
    using scan_error_atomic [of sampleParseFloat ?oc sampleStore "[''--value'', ''abc'']"]
    by metis
qed

section \<open>C3: type reconciliation\<close>

lemma setupHandler_supported:
  "spec_supported ptr \<Longrightarrow> snd (setupHandler oc d ptr) = None"
  by (cases ptr) auto

lemma typeMismatch_spec:
  "probe ptr = Some (pType, pArray) \<Longrightarrow> typeMismatch d pType pArray = spec_ruleViolated d ptr"
  by (cases ptr) (auto simp: typeMismatch_def spec_ruleViolated_def)

lemma probe_supported: "(probe ptr = None) = (\<not> spec_supported ptr)"
  by (cases ptr) auto

text \<open>
  Claim C3. For every descriptor the grammar accepts, every destination and every
  collection: a destination that is not one of the seven supported shapes makes registration
  fail with \<open>TypeNotRecognized\<close> (UnsupportedDestinationType); for a supported destination,
  registration fails with \<open>DescriptorTypeMismatch\<close> (TypeMismatch) exactly when one of the
  rules as the spec words them is violated, and the collection is then left as it was.
\<close>

theorem reconciliation_rules:
  assumes "parseDescriptor desc = Inr d"
  shows "(\<not> spec_supported ptr \<longrightarrow> parseOption oc desc ptr = (oc, Some TypeNotRecognized))
    \<and> (spec_supported ptr \<longrightarrow>
         (snd (parseOption oc desc ptr) = Some DescriptorTypeMismatch) = spec_ruleViolated d ptr)
    \<and> (spec_supported ptr \<and> spec_ruleViolated d ptr \<longrightarrow>
         parseOption oc desc ptr = (oc, Some DescriptorTypeMismatch))"
proof (cases "probe ptr")
  case None
  then have "\<not> spec_supported ptr" by (simp add: probe_supported)
  with assms None show ?thesis
    by (simp add: parseOption_def)
next
  case (Some a)
  obtain pType pArray where a: "a = (pType, pArray)" by (cases a)
  from Some have sup: "spec_supported ptr"
    using probe_supported [of ptr] by simp
  from Some a have tm: "typeMismatch d pType pArray = spec_ruleViolated d ptr"
    by (simp add: typeMismatch_spec)
  show ?thesis
  proof (cases "spec_ruleViolated d ptr")
    case True
    with assms Some a tm sup show ?thesis by (simp add: parseOption_def)
  next
    case False
    have "snd (parseOption oc desc ptr) \<noteq> Some DescriptorTypeMismatch"
      using assms Some a tm False setupHandler_supported [OF sup, of oc d]
      by (auto simp: parseOption_def checkNameConflict_def split: option.splits)
    with False sup show ?thesis by simp
  qed
qed

theorem reconciliation_rules_witness:
  "parseDescriptor ''value:i@'' = Inr \<lparr>dName = ''value'', dNegatable = False, dCounting = False,
       dOptional = True, dArray = True, dType = CHR ''i''\<rparr>
   \<and> parseOption (newOptionCollection :: real optionCollection) ''value:i@'' (PIntArray 0)
       = (newOptionCollection, Some DescriptorTypeMismatch)
   \<and> parseOption (newOptionCollection :: real optionCollection) ''value:i@'' AOther
       = (newOptionCollection, Some TypeNotRecognized)"
proof -
  have h: "parseDescriptor ''value:i@'' = Inr \<lparr>dName = ''value'', dNegatable = False,
       dCounting = False, dOptional = True, dArray = True, dType = CHR ''i''\<rparr>"
    by (simp add: register_eval)
  show ?thesis
    using h reconciliation_rules [OF h, of "PIntArray 0" "newOptionCollection :: real optionCollection"]
      reconciliation_rules [OF h, of AOther "newOptionCollection :: real optionCollection"]
    by (simp add: spec_ruleViolated_def)
qed

section \<open>C10: a dangling last argument\<close>

lemma parseOptions_even:
  "parseOptions oc ps = (oc', None) \<Longrightarrow> even (length ps)"
  by (induction oc ps rule: parseOptions.induct)
    (auto split: any.splits prod.splits option.splits)

lemma parseOptions_dangling:
  "parseOptions oc ps = (oc', None) \<Longrightarrow> parseOptions oc (ps @ [x]) = (oc', Some OddNumberOfArguments)"
  by (induction oc ps rule: parseOptions.induct)
    (auto split: any.splits prod.splits option.splits)

text \<open>
  Claim C10. When the variadic list of \<^verbatim>\<open>GetOptions\<close> has odd length and the pairs before its
  last element all register, the call returns the error \<open>OddNumberOfArguments\<close>, the
  original token list and the store unchanged; replacing the last element by any other value
  gives the same result, so the element is never interpreted.
\<close>

theorem odd_argument_list:
  assumes "odd (length a)"
    and "parseOptions (newOptionCollection :: 'f optionCollection) (butlast a) = (oc, None)"
  shows "GetOptions (pf :: string \<Rightarrow> numError + 'f) s args a = (s, Returns args (Some OddNumberOfArguments))
    \<and> GetOptions pf s args (butlast a @ [x]) = GetOptions pf s args a"
proof -
  from assms(1) have ne: "a \<noteq> []" by auto
  then have a: "a = butlast a @ [last a]" by simp
  have "parseOptions (newOptionCollection :: 'f optionCollection) (butlast a @ [y]) = (oc, Some OddNumberOfArguments)" for y
    using assms(2) by (rule parseOptions_dangling)
  note d = this
  have 1: "GetOptions pf s args (butlast a @ [y]) = (s, Returns args (Some OddNumberOfArguments))" for y
    by (simp add: GetOptions_def d)
  from 1 [of "last a"] a have 2: "GetOptions pf s args a = (s, Returns args (Some OddNumberOfArguments))"
    by simp
  with 1 [of x] show ?thesis by simp
qed

theorem odd_argument_list_witness:
  "odd (length [AString ''x'', PBool 0, AString ''y''])
   \<and> parseOptions (newOptionCollection :: real optionCollection) (butlast [AString ''x'', PBool 0, AString ''y''])
      = (\<lparr>handlers = [''x'' \<mapsto> optionSimpleHandler optionNoArg True 0], committers = []\<rparr>, None)
   \<and> GetOptions sampleParseFloat sampleStore [''-x'', ''notaflag''] [AString ''x'', PBool 0, AString ''y'']
      = (sampleStore, Returns [''-x'', ''notaflag''] (Some OddNumberOfArguments))"
proof -
  have h1: "odd (length [AString ''x'', PBool 0, AString ''y''])" by simp
  have h2: "parseOptions (newOptionCollection :: real optionCollection) (butlast [AString ''x'', PBool 0, AString ''y''])
      = (\<lparr>handlers = [''x'' \<mapsto> optionSimpleHandler optionNoArg True 0], committers = []\<rparr>, None)"
    by (simp add: register_eval)
  from odd_argument_list [OF h1 h2, of sampleParseFloat sampleStore "[''-x'', ''notaflag'']"] h1 h2
  show ?thesis by simp
qed

section \<open>C4: name conflicts\<close>

text \<open>
  A successful registration reserves its name, and the negated name of a negatable flag;
  no registration, successful or failed, removes a name; a failed one changes nothing.
\<close>

lemma setupHandler_dom:
  assumes "setupHandler oc d ptr = (oc', None)"
  shows "handlers oc' (dName d) \<noteq> None
    \<and> (dNegatable d \<and> (\<exists>p. ptr = PBool p) \<longrightarrow> handlers oc' (negatedName (dName d)) \<noteq> None)
    \<and> (\<forall>k. handlers oc k \<noteq> None \<longrightarrow> handlers oc' k \<noteq> None)"
  using assms
  by (cases ptr)
    (auto simp: addHandler_def addSimpleHandler_def addNegatableHandler_def addCountingHandler_def
      addIntHandler_def addOptionalIntHandler_def addIntArrayHandler_def addFloatHandler_def
      addOptionalFloatHandler_def addFloatArrayHandler_def addStringHandler_def
      addOptionalStringHandler_def addStringArrayHandler_def split: if_splits)

lemma negatable_needs_bool:
  "probe ptr = Some (pType, pArray) \<Longrightarrow> \<not> typeMismatch d pType pArray \<Longrightarrow> dNegatable d \<Longrightarrow> \<exists>p. ptr = PBool p"
  by (cases ptr) (auto simp: typeMismatch_def split: if_splits)

lemma parseOption_failure_unchanged:
  "parseOption oc desc ptr = (oc', Some e) \<Longrightarrow> oc' = oc"
  by (cases ptr)
    (auto simp: parseOption_def split: sum.splits option.splits if_splits prod.splits)

lemma parseOption_success_dom:
  assumes "parseOption oc desc ptr = (oc', None)" and "parseDescriptor desc = Inr d"
  shows "handlers oc' (dName d) \<noteq> None
    \<and> (dNegatable d \<longrightarrow> handlers oc' (negatedName (dName d)) \<noteq> None)
    \<and> (\<forall>k. handlers oc k \<noteq> None \<longrightarrow> handlers oc' k \<noteq> None)"
proof -
  from assms obtain pType pArray where pr: "probe ptr = Some (pType, pArray)"
    and tm: "\<not> typeMismatch d pType pArray" and su: "setupHandler oc d ptr = (oc', None)"
    by (auto simp: parseOption_def split: option.splits if_splits prod.splits)
  from setupHandler_dom [OF su] negatable_needs_bool [OF pr tm] show ?thesis by blast
qed

lemma parseOption_mono:
  "parseOption oc desc ptr = (oc', r) \<Longrightarrow> handlers oc k \<noteq> None \<Longrightarrow> handlers oc' k \<noteq> None"
proof (cases r)
  case None
  assume a: "parseOption oc desc ptr = (oc', r)" and k: "handlers oc k \<noteq> None"
  from a None obtain d where "parseDescriptor desc = Inr d"
    by (auto simp: parseOption_def split: sum.splits)
  with a None k show ?thesis using parseOption_success_dom [of oc desc ptr oc' d] by blast
next
  case (Some e)
  assume "parseOption oc desc ptr = (oc', r)" and "handlers oc k \<noteq> None"
  with Some show ?thesis by (auto dest: parseOption_failure_unchanged)
qed

lemma parseOptions_mono:
  "parseOptions oc a = (oc', r) \<Longrightarrow> handlers oc k \<noteq> None \<Longrightarrow> handlers oc' k \<noteq> None"
proof (induction oc a arbitrary: oc' r rule: parseOptions.induct)
  case (1 oc d p a)
  show ?case
  proof (cases d)
    case (AString desc)
    obtain oc1 r1 where po: "parseOption oc desc p = (oc1, r1)" by (cases "parseOption oc desc p")
    have k1: "handlers oc1 k \<noteq> None" using parseOption_mono [OF po "1.prems"(2)] .
    show ?thesis
    proof (cases r1)
      case None
      with 1 AString po k1 show ?thesis by auto
    next
      case (Some e)
      with 1 AString po k1 show ?thesis by auto
    qed
  qed (use 1 in auto)
qed auto

lemma conflict_direct:
  assumes "parseDescriptor desc = Inr d" and "probe ptr = Some (pType, pArray)"
    and "\<not> typeMismatch d pType pArray"
    and "handlers oc (dName d) \<noteq> None \<or> (dNegatable d \<and> handlers oc (negatedName (dName d)) \<noteq> None)"
  shows "parseOption oc desc ptr = (oc, Some OptionAlreadyExists)"
  using assms by (auto simp: parseOption_def checkNameConflict_def)

text \<open>
  Claim C4. Take a pair that the grammar and type reconciliation accept (the spec's "valid
  descriptor/destination pair"; a pair that fails them is rejected earlier, with their
  error), with any destination type. Registering it fails with \<open>OptionAlreadyExists\<close>
  (NameConflict) when its name is in the registry, and also when it is negatable and its
  negated name is in the registry. So after any successful registration followed by any
  successful sequence of registrations, a pair with the same name, a pair whose name is the
  negated alias of the earlier negatable flag, and a negatable pair whose negated alias is
  the earlier name all fail. The failing call leaves the collection as it was: no handler
  is created. When neither name is taken the registration succeeds.
\<close>

theorem name_conflict:
  assumes "parseDescriptor desc = Inr d" and "probe ptr = Some (pType, pArray)"
    and "\<not> typeMismatch d pType pArray"
  shows "(handlers oc (dName d) \<noteq> None \<longrightarrow> parseOption oc desc ptr = (oc, Some OptionAlreadyExists))
    \<and> (dNegatable d \<and> handlers oc (negatedName (dName d)) \<noteq> None \<longrightarrow>
         parseOption oc desc ptr = (oc, Some OptionAlreadyExists))
    \<and> (parseOption oc0 desc0 ptr0 = (oc1, None) \<and> parseDescriptor desc0 = Inr d0
         \<and> parseOptions oc1 a = (oc, None)
         \<and> (dName d = dName d0
             \<or> (dNegatable d0 \<and> dName d = negatedName (dName d0))
             \<or> (dNegatable d \<and> negatedName (dName d) = dName d0)) \<longrightarrow>
         parseOption oc desc ptr = (oc, Some OptionAlreadyExists))
    \<and> (handlers oc (dName d) = None
         \<and> (dNegatable d \<longrightarrow> handlers oc (negatedName (dName d)) = None) \<longrightarrow>
         snd (parseOption oc desc ptr) = None)"
proof (intro conjI impI)
  assume "handlers oc (dName d) \<noteq> None"
  with assms show "parseOption oc desc ptr = (oc, Some OptionAlreadyExists)"
    by (simp add: conflict_direct)
next
  assume "dNegatable d \<and> handlers oc (negatedName (dName d)) \<noteq> None"
  with assms show "parseOption oc desc ptr = (oc, Some OptionAlreadyExists)"
    by (simp add: conflict_direct)
next
  assume h: "parseOption oc0 desc0 ptr0 = (oc1, None) \<and> parseDescriptor desc0 = Inr d0
         \<and> parseOptions oc1 a = (oc, None)
         \<and> (dName d = dName d0
             \<or> (dNegatable d0 \<and> dName d = negatedName (dName d0))
             \<or> (dNegatable d \<and> negatedName (dName d) = dName d0))"
  then have r: "handlers oc1 (dName d0) \<noteq> None"
      "dNegatable d0 \<longrightarrow> handlers oc1 (negatedName (dName d0)) \<noteq> None"
    using parseOption_success_dom [of oc0 desc0 ptr0 oc1 d0] by auto
  from h have m: "\<And>k. handlers oc1 k \<noteq> None \<Longrightarrow> handlers oc k \<noteq> None"
    using parseOptions_mono [of oc1 a oc None] by blast
  from h r m have "handlers oc (dName d) \<noteq> None
      \<or> (dNegatable d \<and> handlers oc (negatedName (dName d)) \<noteq> None)"
    by metis
  with assms show "parseOption oc desc ptr = (oc, Some OptionAlreadyExists)"
    by (rule conflict_direct)
next
  assume "handlers oc (dName d) = None \<and> (dNegatable d \<longrightarrow> handlers oc (negatedName (dName d)) = None)"
  moreover have "spec_supported ptr" using assms(2) probe_supported [of ptr] by simp
  ultimately show "snd (parseOption oc desc ptr) = None"
    using assms setupHandler_supported [of ptr oc d]
    by (auto simp: parseOption_def checkNameConflict_def)
qed


theorem name_conflict_witness:
  "parseOption (newOptionCollection :: real optionCollection) ''flag!'' (PBool 0)
     = (\<lparr>handlers = [''flag'' \<mapsto> optionSimpleHandler optionNoArg True 0,
                       ''noflag'' \<mapsto> optionSimpleHandler optionNoArg False 0],
         committers = []\<rparr>, None)
   \<and> parseOption
        \<lparr>handlers = [''flag'' \<mapsto> optionSimpleHandler optionNoArg True 0,
                      ''noflag'' \<mapsto> optionSimpleHandler optionNoArg False 0],
         committers = ([] :: real optionCommitter list)\<rparr> ''noflag'' (PInt 1)
     = (\<lparr>handlers = [''flag'' \<mapsto> optionSimpleHandler optionNoArg True 0,
                       ''noflag'' \<mapsto> optionSimpleHandler optionNoArg False 0],
         committers = []\<rparr>, Some OptionAlreadyExists)"
proof -
  let ?oc = "\<lparr>handlers = [''flag'' \<mapsto> optionSimpleHandler optionNoArg True 0,
                      ''noflag'' \<mapsto> optionSimpleHandler optionNoArg False 0],
         committers = ([] :: real optionCommitter list)\<rparr>"
  let ?first = "\<lparr>dName = ''flag'', dNegatable = True, dCounting = False, dOptional = False,
      dArray = False, dType = CHR ''?''\<rparr>"
  let ?second = "\<lparr>dName = ''noflag'', dNegatable = False, dCounting = False, dOptional = False,
      dArray = False, dType = CHR ''?''\<rparr>"
  have h1: "parseDescriptor ''noflag'' = Inr ?second" by (simp add: register_eval)
  have h2: "probe (PInt 1) = Some (CHR ''i'', False)" by simp
  have h3: "\<not> typeMismatch ?second CHR ''i'' False" by (simp add: typeMismatch_def)
  have h4: "parseOption (newOptionCollection :: real optionCollection) ''flag!'' (PBool 0) = (?oc, None)"
    by (simp add: register_eval)
  have h5: "parseDescriptor ''flag!'' = Inr ?first" by (simp add: register_eval)
  have h6: "parseOptions ?oc [] = (?oc, None)" by simp
  have h7: "dName ?second = negatedName (dName ?first)" by (simp add: negatedName_def)
  from name_conflict [OF h1 h2 h3, of ?oc newOptionCollection "''flag!''" "PBool 0" ?oc ?first "[]"]
    h4 h5 h6 h7
  show ?thesis by simp
qed

section \<open>C2: type markers and modifiers in one descriptor\<close>

lemma marker_not_name: "isTypeMarker c \<Longrightarrow> \<not> isNameChar c"
  by (auto simp: isTypeMarker_def isNameChar_def)

lemma modifier_not_name: "isModifier c \<Longrightarrow> \<not> isNameChar c"
  by (auto simp: isModifier_def isNameChar_def)

lemma split_name:
  assumes "\<forall>c\<in>set name. isNameChar c" and "tail = [] \<or> \<not> isNameChar (hd tail)"
  shows "takeWhile isNameChar (name @ tail) = name \<and> dropWhile isNameChar (name @ tail) = tail"
proof -
  from assms(2) have "takeWhile isNameChar tail = [] \<and> dropWhile isNameChar tail = tail"
    by (cases tail) auto
  with assms(1) show ?thesis
    by (simp add: takeWhile_append2 dropWhile_append2)
qed

text \<open>The language of the pattern, group by group.\<close>

lemma FindStringSubmatch_iff:
  "FindStringSubmatch desc = Some (m1, m2, m3) \<longleftrightarrow>
     desc = m1 @ m2 @ m3 \<and> m1 \<noteq> [] \<and> (\<forall>c\<in>set m1. isNameChar c)
     \<and> (m2 = [] \<or> (\<exists>k t. m2 = [k, t] \<and> isTypeMarker k \<and> isTypeLetter t))
     \<and> (m3 = [] \<or> (\<exists>m. m3 = [m] \<and> isModifier m))"
  (is "?L \<longleftrightarrow> ?R")
proof
  assume l: ?L
  let ?n = "takeWhile isNameChar desc" and ?t = "dropWhile isNameChar desc"
  have d: "desc = ?n @ ?t" by simp
  have n: "\<forall>c\<in>set ?n. isNameChar c" by (auto dest: set_takeWhileD)
  from l have "m1 = ?n \<and> ?n \<noteq> [] \<and> ?t = m2 @ m3
     \<and> (m2 = [] \<or> (\<exists>k t. m2 = [k, t] \<and> isTypeMarker k \<and> isTypeLetter t))
     \<and> (m3 = [] \<or> (\<exists>m. m3 = [m] \<and> isModifier m))"
    by (auto simp: FindStringSubmatch_def Let_def split: if_splits list.splits)
  with d n show ?R by metis
next
  assume r: ?R
  then have tl: "m2 @ m3 = [] \<or> \<not> isNameChar (hd (m2 @ m3))"
    by (auto dest: marker_not_name modifier_not_name)
  from r have nm: "\<forall>c\<in>set m1. isNameChar c" by simp
  from split_name [OF nm tl] r show ?L
    by (auto simp: FindStringSubmatch_def Let_def)
qed

lemma parseDescriptor_combined:
  assumes "name \<noteq> []" and "\<forall>c\<in>set name. isNameChar c"
    and "isTypeMarker k" and "isTypeLetter t" and "isModifier m"
  shows "parseDescriptor (name @ [k, t, m]) =
     Inr \<lparr>dName = name, dNegatable = (m = CHR ''!''), dCounting = (m = CHR ''+''),
          dOptional = (k = CHR '':''), dArray = (m = CHR ''@''), dType = t\<rparr>"
proof -
  have "FindStringSubmatch (name @ [k, t, m]) = Some (name, [k, t], [m])"
    using assms by (subst FindStringSubmatch_iff) simp
  with assms(5) show ?thesis
    by (auto simp: parseDescriptor_def isModifier_def)
qed

lemma one_modifier:
  "parseDescriptor desc = Inr d \<Longrightarrow>
   \<not> (dNegatable d \<and> dCounting d) \<and> \<not> (dNegatable d \<and> dArray d) \<and> \<not> (dCounting d \<and> dArray d)"
  by (auto simp: parseDescriptor_def split: option.splits prod.splits if_splits)

lemma parseOption_not_malformed:
  "parseDescriptor desc = Inr d \<Longrightarrow> snd (parseOption oc desc ptr) \<noteq> Some DescriptorNotUnderstood"
  by (cases ptr)
    (auto simp: parseOption_def checkNameConflict_def split: option.splits if_splits)

text \<open>
  Claim C2 says that a descriptor with a type marker and \<^verbatim>\<open>!\<close> or \<^verbatim>\<open>+\<close> is rejected as
  malformed, and that a descriptor carries at most one of negatable, counting, optional and
  sequence. The pattern has the type group and the modifier group side by side, both
  optional, so the code accepts such descriptors at the grammar stage: \<^verbatim>\<open>"flag=b!"\<close> bound to
  a boolean registers a negatable flag, and \<^verbatim>\<open>"flag:b!"\<close> parses as optional and negatable at
  once (type reconciliation then rejects it, as a mismatch).
\<close>

theorem type_marker_with_modifier_counterexample:
  "snd (parseOption (newOptionCollection :: real optionCollection) ''flag=b!'' (PBool 0)) = None
   \<and> handlers (fst (parseOption (newOptionCollection :: real optionCollection) ''flag=b!''
         (PBool 0))) ''noflag'' = Some (optionSimpleHandler optionNoArg False 0)
   \<and> parseDescriptor ''flag:b!''
     = Inr \<lparr>dName = ''flag'', dNegatable = True, dCounting = False, dOptional = True,
            dArray = False, dType = CHR ''b''\<rparr>
   \<and> parseOption (newOptionCollection :: real optionCollection) ''flag:b!'' (PBool 0)
     = (newOptionCollection, Some DescriptorTypeMismatch)"
  by (simp add: register_eval)

text \<open>
  Claim C2, amended. A descriptor made of a name, a type marker with its type letter and a
  modifier character is grammatically well formed: it parses to the descriptor with that
  name and type, optional when the marker is \<^verbatim>\<open>:\<close>, and negatable, counting or sequence by
  the modifier; registration never rejects it as \<open>DescriptorNotUnderstood\<close>
  (MalformedDescriptor), whatever the destination. Every parsed descriptor carries at most
  one of negatable, counting and sequence; optional is independent of the three.
\<close>

theorem type_marker_with_modifier:
  assumes "name \<noteq> []" and "\<forall>c\<in>set name. isNameChar c"
    and "isTypeMarker k" and "isTypeLetter t" and "isModifier m"
  shows "parseDescriptor (name @ [k, t, m]) =
       Inr \<lparr>dName = name, dNegatable = (m = CHR ''!''), dCounting = (m = CHR ''+''),
            dOptional = (k = CHR '':''), dArray = (m = CHR ''@''), dType = t\<rparr>
    \<and> snd (parseOption oc (name @ [k, t, m]) ptr) \<noteq> Some DescriptorNotUnderstood
    \<and> (parseDescriptor desc = Inr d \<longrightarrow>
         \<not> (dNegatable d \<and> dCounting d) \<and> \<not> (dNegatable d \<and> dArray d)
         \<and> \<not> (dCounting d \<and> dArray d))"
  using parseDescriptor_combined [OF assms] one_modifier [of desc d]
    parseOption_not_malformed [OF parseDescriptor_combined [OF assms], of oc ptr]
  by blast

theorem type_marker_with_modifier_witness:
  "parseDescriptor ''count:i+'' =
       Inr \<lparr>dName = ''count'', dNegatable = False, dCounting = True,
            dOptional = True, dArray = False, dType = CHR ''i''\<rparr>
   \<and> snd (parseOption (newOptionCollection :: real optionCollection) ''count:i+'' (PInt 0))
       \<noteq> Some DescriptorNotUnderstood"
proof -
  have h1: "''count'' \<noteq> []" by simp
  have h2: "\<forall>c\<in>set ''count''. isNameChar c" by (simp add: isNameChar_def)
  have h3: "isTypeMarker CHR '':''" by (simp add: isTypeMarker_def)
  have h4: "isTypeLetter CHR ''i''" by (simp add: isTypeLetter_def)
  have h5: "isModifier CHR ''+''" by (simp add: isModifier_def)
  from type_marker_with_modifier [OF h1 h2 h3 h4 h5, of "newOptionCollection :: real optionCollection" "PInt 0"]
  show ?thesis by simp
qed

section \<open>C5: an optional argument that is absent\<close>

lemma Atoi_zero: "Atoi ''0'' = Inr 0"
  by (simp add: Atoi_def digitVal_def)

lemma Atoi_empty: "Atoi [] = Inl (NumError ''Atoi'' [] ErrSyntax)"
  by (simp add: Atoi_def)

lemma loop_single:
  assumes "processArgs_body pf (handlers oc) rest = StepContinue c []"
  shows "processArgs_loop pf oc rest = (oc\<lparr>committers := committers oc @ [c]\<rparr>, Ok [])"
  by (simp add: loop_Continue [OF assms] loop_Break processArgs_body_def)

lemma commit_snoc:
  "commit (oc\<lparr>committers := committers oc @ [c]\<rparr>) s = commit1 c (commit oc s)"
  by (simp add: commit_def)

lemma absent_step:
  assumes "handlers oc name = Some h" and "name \<noteq> []" and "CHR ''='' \<notin> set name"
    and "getType h = optionOptionalArg" and "rest = [] \<or> HasPrefix (hd rest) ''--''"
    and "handle pf h [] = Ok c"
  shows "processArgs_loop pf oc ((''--'' @ name) # rest)
       = processArgs_loop pf (oc\<lparr>committers := committers oc @ [c]\<rparr>) rest"
    and "processArgs pf oc s [''--'' @ name]
       = (oc\<lparr>committers := committers oc @ [c]\<rparr>, commit1 c (commit oc s), Returns [] None)"
proof -
  have b: "processArgs_body pf (handlers oc) ((''--'' @ name) # r) = StepContinue c r"
    if "r = [] \<or> HasPrefix (hd r) ''--''" for r
    using body_absent [of "handlers oc" name h r pf] assms(1-4,6) that
    by (simp add: callHandle_def)
  from b [OF assms(5)] show "processArgs_loop pf oc ((''--'' @ name) # rest)
       = processArgs_loop pf (oc\<lparr>committers := committers oc @ [c]\<rparr>) rest"
    by (rule loop_Continue)
  have "processArgs_body pf (handlers oc) [''--'' @ name] = StepContinue c []"
    using b [of "[]"] by simp
  from loop_single [OF this] show "processArgs pf oc s [''--'' @ name]
       = (oc\<lparr>committers := committers oc @ [c]\<rparr>, commit1 c (commit oc s), Returns [] None)"
    by (simp add: processArgs_def commit_snoc)
qed

text \<open>
  Claim C5. Take an option registered with an optional-argument handler of integer, float or
  text kind, and an occurrence \<^verbatim>\<open>--name\<close> without inline value that is the last token or is
  followed by a token starting with \<^verbatim>\<open>--\<close>. The loop then appends the committer of the zero
  value (\<open>0\<close>, \<open>0.0\<close>, the empty string) and goes on with every following token still
  to scan; committing that update stores the zero value in the destination, and when the
  occurrence is the whole token list the call returns an empty remainder. The float case
  rests on \<^verbatim>\<open>strconv.ParseFloat("0")\<close> being \<open>0\<close>, the one fact about the library it uses.
  \<^verbatim>\<open>GetOptions\<close> on \<^verbatim>\<open>["--value", "--flag"]\<close> with \<^verbatim>\<open>"value:i"\<close> and a plain flag stores 0, sets
  the flag and returns an empty remainder.
\<close>

theorem optional_argument_absent:
  fixes pf :: "string \<Rightarrow> numError + 'f::zero"
  assumes "name \<noteq> []" and "CHR ''='' \<notin> set name"
    and "rest = [] \<or> HasPrefix (hd rest) ''--''"
    and "pf ''0'' = Inr 0"
  shows "(handlers oc name = Some (optionIntHandler optionOptionalArg p) \<longrightarrow>
        processArgs_loop pf oc ((''--'' @ name) # rest)
          = processArgs_loop pf (oc\<lparr>committers := committers oc @ [optionSimpleCommitterInt 0 p]\<rparr>) rest
        \<and> processArgs pf oc s [''--'' @ name]
          = (oc\<lparr>committers := committers oc @ [optionSimpleCommitterInt 0 p]\<rparr>,
             commit1 (optionSimpleCommitterInt 0 p) (commit oc s), Returns [] None))
    \<and> (handlers oc name = Some (optionFloatHandler optionOptionalArg p) \<longrightarrow>
        processArgs_loop pf oc ((''--'' @ name) # rest)
          = processArgs_loop pf (oc\<lparr>committers := committers oc @ [optionSimpleCommitterFloat 0 p]\<rparr>) rest
        \<and> processArgs pf oc s [''--'' @ name]
          = (oc\<lparr>committers := committers oc @ [optionSimpleCommitterFloat 0 p]\<rparr>,
             commit1 (optionSimpleCommitterFloat 0 p) (commit oc s), Returns [] None))
    \<and> (handlers oc name = Some (optionStringHandler optionOptionalArg p) \<longrightarrow>
        processArgs_loop pf oc ((''--'' @ name) # rest)
          = processArgs_loop pf (oc\<lparr>committers := committers oc @ [optionSimpleCommitterString [] p]\<rparr>) rest
        \<and> processArgs pf oc s [''--'' @ name]
          = (oc\<lparr>committers := committers oc @ [optionSimpleCommitterString [] p]\<rparr>,
             commit1 (optionSimpleCommitterString [] p) (commit oc s), Returns [] None))
    \<and> ints (commit1 (optionSimpleCommitterInt 0 p) s) p = 0
    \<and> floats (commit1 (optionSimpleCommitterFloat 0 p) s) p = 0
    \<and> strings (commit1 (optionSimpleCommitterString [] p) s) p = []
    \<and> GetOptions pf s [''--value'', ''--flag''] [AString ''value:i'', PInt p, AString ''flag'', PBool q]
        = (s\<lparr>ints := (ints s)(p := 0), bools := (bools s)(q := True)\<rparr>, Returns [] None)"
proof -
  have i: "handle pf (optionIntHandler optionOptionalArg p) [] = Ok (optionSimpleCommitterInt 0 p)"
    by (simp add: convInt_def Atoi_zero)
  have f: "handle pf (optionFloatHandler optionOptionalArg p) [] = Ok (optionSimpleCommitterFloat 0 p)"
    using assms(4) by (simp add: convFloat_def)
  have st: "handle pf (optionStringHandler optionOptionalArg p) [] = Ok (optionSimpleCommitterString [] p)"
    by simp
  have ex: "GetOptions pf s [''--value'', ''--flag''] [AString ''value:i'', PInt p, AString ''flag'', PBool q]
        = (s\<lparr>ints := (ints s)(p := 0), bools := (bools s)(q := True)\<rparr>, Returns [] None)"
    by (simp add: GetOptions_def register_eval scan_eval HasPrefix_def)
  show ?thesis
    using absent_step [where oc = oc and name = name and h = "optionIntHandler optionOptionalArg p"
        and rest = rest and pf = pf] i
      absent_step [where oc = oc and name = name and h = "optionFloatHandler optionOptionalArg p"
        and rest = rest and pf = pf] f
      absent_step [where oc = oc and name = name and h = "optionStringHandler optionOptionalArg p"
        and rest = rest and pf = pf] st
      ex assms(1-3)
    by simp
qed

theorem optional_argument_absent_witness:
  "processArgs sampleParseFloat
      \<lparr>handlers = [''value'' \<mapsto> optionFloatHandler optionOptionalArg 0], committers = []\<rparr>
      sampleStore [''--value'']
     = (\<lparr>handlers = [''value'' \<mapsto> optionFloatHandler optionOptionalArg 0],
          committers = [optionSimpleCommitterFloat 0 0]\<rparr>,
        sampleStore\<lparr>floats := (floats sampleStore)(0 := 0)\<rparr>, Returns [] None)
   \<and> ints (fst (GetOptions sampleParseFloat sampleStore [''--value'', ''--flag'']
        [AString ''value:i'', PInt 0, AString ''flag'', PBool 0])) 0 = 0"
proof -
  have h1: "''value'' \<noteq> []" by simp
  have h2: "CHR ''='' \<notin> set ''value''" by simp
  have h3: "([] :: string list) = [] \<or> HasPrefix (hd []) ''--''" by simp
  have h4: "sampleParseFloat ''0'' = Inr 0" by (simp add: sampleParseFloat_def)
  from optional_argument_absent [of "''value''" "[]" sampleParseFloat
      "\<lparr>handlers = [''value'' \<mapsto> optionFloatHandler optionOptionalArg 0], committers = []\<rparr>"
      0 sampleStore 0] h1 h2 h3 h4
  show ?thesis by (simp add: commit_def)
qed

section \<open>C8: inline and separate values\<close>

text \<open>A single required-argument occurrence, inline or separate, as the whole token list.\<close>

lemma single_occurrence:
  assumes "processArgs_body pf (handlers oc) args = callHandle pf h [v] []"
  shows "processArgs pf oc s args =
     (case handle pf h [v] of
        Ok c \<Rightarrow> (oc\<lparr>committers := committers oc @ [c]\<rparr>, commit1 c (commit oc s), Returns [] None)
      | Err e \<Rightarrow> (oc, s, Returns args (Some e))
      | Panic \<Rightarrow> (oc, s, Panics))"
proof (cases "handle pf h [v]")
  case (Ok c)
  with assms have "processArgs_body pf (handlers oc) args = StepContinue c []"
    by (simp add: callHandle_def)
  from loop_single [OF this] Ok show ?thesis
    by (simp add: processArgs_def commit_snoc)
next
  case (Err e)
  with assms have "processArgs_body pf (handlers oc) args = StepReturn e"
    by (simp add: callHandle_def)
  from loop_Return [OF this] Err show ?thesis
    by (simp add: processArgs_def)
next
  case Panic
  with assms have "processArgs_body pf (handlers oc) args = StepPanic"
    by (simp add: callHandle_def)
  from loop_Panic [OF this] Panic show ?thesis
    by (simp add: processArgs_def)
qed




section \<open>C9: an empty inline value is a value\<close>

lemma IndexRune_present: "c \<in> set xs \<Longrightarrow> 0 \<le> IndexRune xs c"
  by (induction xs) (auto simp: Let_def)

lemma IndexRune_iff: "(IndexRune xs c > -1) = (c \<in> set xs)"
  using IndexRune_present [of c xs] IndexRune_absent [of c xs] by fastforce

lemma callHandle_not_missing: "callHandle pf h z r \<noteq> StepReturn MissingRequiredArgument"
  by (auto simp: callHandle_def split: result.splits dest: handle_error_kind)

lemma body_missing_iff:
  "processArgs_body pf hs rest0 = StepReturn MissingRequiredArgument \<longleftrightarrow>
     (\<exists>tok h. rest0 = [tok] \<and> HasPrefix tok ''--'' \<and> drop 2 tok \<noteq> []
        \<and> CHR ''='' \<notin> set (drop 2 tok) \<and> hs (drop 2 tok) = Some h
        \<and> getType h = optionRequiredArg)"
  (is "?L \<longleftrightarrow> ?R")
proof
  assume ?L
  then show ?R
    by (auto simp: processArgs_body_def Let_def IndexRune_iff callHandle_not_missing
        split: list.splits if_splits option.splits)
next
  assume ?R
  then show ?L
    by (auto simp: processArgs_body_def Let_def IndexRune_iff)
qed

lemma body_continue_suffix:
  "processArgs_body pf hs rest = StepContinue c r \<Longrightarrow> \<exists>pre. rest = pre @ r \<and> pre \<noteq> []"
proof -
  assume a: "processArgs_body pf hs rest = StepContinue c r"
  then have "r = drop 1 rest \<or> r = drop 2 rest"
    by (auto simp: processArgs_body_def Let_def split: list.splits if_splits option.splits
        dest!: callHandle_Continue)
  moreover from a have "length r < length rest" by (rule processArgs_body_shorter)
  ultimately show ?thesis
    by (metis append_take_drop_id append_self_conv2 less_irrefl)
qed

lemma loop_missing:
  "processArgs_loop pf oc rest = (oc', Err MissingRequiredArgument) \<Longrightarrow>
   \<exists>pre tok h. rest = pre @ [tok] \<and> HasPrefix tok ''--'' \<and> drop 2 tok \<noteq> []
      \<and> CHR ''='' \<notin> set (drop 2 tok) \<and> handlers oc (drop 2 tok) = Some h
      \<and> getType h = optionRequiredArg"
proof (induction pf oc rest arbitrary: oc' rule: processArgs_loop.induct)
  case (1 pf oc rest)
  show ?case
  proof (cases "processArgs_body pf (handlers oc) rest")
    case (StepContinue c r')
    from 1(2) have "processArgs_loop pf (oc\<lparr>committers := committers oc @ [c]\<rparr>) r'
        = (oc', Err MissingRequiredArgument)"
      by (simp add: loop_Continue [OF StepContinue])
    from 1(1) [OF StepContinue this] obtain pre tok h where
      "r' = pre @ [tok]" "HasPrefix tok ''--''" "drop 2 tok \<noteq> []" "CHR ''='' \<notin> set (drop 2 tok)"
      "handlers oc (drop 2 tok) = Some h" "getType h = optionRequiredArg"
      by auto
    moreover from body_continue_suffix [OF StepContinue] obtain p0 where "rest = p0 @ r'" by blast
    ultimately have "rest = (p0 @ pre) @ [tok]" by simp
    with \<open>HasPrefix tok ''--''\<close> \<open>drop 2 tok \<noteq> []\<close> \<open>CHR ''='' \<notin> set (drop 2 tok)\<close>
      \<open>handlers oc (drop 2 tok) = Some h\<close> \<open>getType h = optionRequiredArg\<close>
    show ?thesis by blast
  next
    case (StepBreak x)
    with 1(2) show ?thesis by (simp add: loop_Break)
  next
    case (StepReturn x)
    with 1(2) have "x = MissingRequiredArgument" by (simp add: loop_Return)
    with StepReturn have "processArgs_body pf (handlers oc) rest = StepReturn MissingRequiredArgument"
      by simp
    then obtain tok h where "rest = [] @ [tok]" "HasPrefix tok ''--''" "drop 2 tok \<noteq> []"
      "CHR ''='' \<notin> set (drop 2 tok)" "handlers oc (drop 2 tok) = Some h"
      "getType h = optionRequiredArg"
      unfolding body_missing_iff by auto
    then show ?thesis by blast
  next
    case StepPanic
    with 1(2) show ?thesis by (simp add: loop_Panic)
  qed
qed

text \<open>
  Claim C9. For a registered option and the single token \<^verbatim>\<open>--name=\<close>: a required text
  option succeeds and stores the empty string; a required integer option fails with the
  conversion error of \<^verbatim>\<open>Atoi\<close> on the empty string, and a required float option with that
  of \<^verbatim>\<open>ParseFloat\<close> (given that \<^verbatim>\<open>strconv.ParseFloat("")\<close> fails, the one fact about the
  library used), neither with \<open>MissingRequiredArgument\<close>; on such a failure nothing is
  stored. The token \<^verbatim>\<open>--name\<close> alone does fail with \<open>MissingRequiredArgument\<close> for a
  required option, and whenever a scan returns that error, the token list ends with an
  option token of a required-argument option that has no \<^verbatim>\<open>=\<close>: no inline value was given
  and no token remained.
\<close>

theorem empty_inline_value:
  assumes "handlers oc name = Some h" and "name \<noteq> []" and "CHR ''='' \<notin> set name"
  shows "(h = optionStringHandler optionRequiredArg p \<longrightarrow>
        processArgs pf oc s [''--'' @ name @ ''='']
          = (oc\<lparr>committers := committers oc @ [optionSimpleCommitterString [] p]\<rparr>,
             (commit oc s)\<lparr>strings := (strings (commit oc s))(p := [])\<rparr>, Returns [] None))
    \<and> (h = optionIntHandler optionRequiredArg p \<longrightarrow>
        processArgs pf oc s [''--'' @ name @ ''='']
          = (oc, s, Returns [''--'' @ name @ ''=''] (Some (NumError ''Atoi'' [] ErrSyntax))))
    \<and> (h = optionFloatHandler optionRequiredArg p \<and> pf [] = Inl e \<longrightarrow>
        processArgs pf oc s [''--'' @ name @ ''='']
          = (oc, s, Returns [''--'' @ name @ ''=''] (Some (NumError ''ParseFloat'' [] e))))
    \<and> (getType h = optionRequiredArg \<longrightarrow>
        processArgs pf oc s [''--'' @ name]
          = (oc, s, Returns [''--'' @ name] (Some MissingRequiredArgument)))
    \<and> (processArgs pf oc s args = (oc', s', Returns r (Some MissingRequiredArgument)) \<longrightarrow>
        (\<exists>pre tok h'. args = pre @ [tok] \<and> HasPrefix tok ''--'' \<and> drop 2 tok \<noteq> []
           \<and> CHR ''='' \<notin> set (drop 2 tok) \<and> handlers oc (drop 2 tok) = Some h'
           \<and> getType h' = optionRequiredArg))"
proof -
  have i: "processArgs_body pf (handlers oc) [''--'' @ name @ ''=''] = callHandle pf h [[]] []"
    using body_inline [of "handlers oc" name h pf "[]" "[]"] assms by simp
  note I = single_occurrence [OF i, of s]
  have A: "processArgs pf oc s [''--'' @ name @ ''='']
          = (oc\<lparr>committers := committers oc @ [optionSimpleCommitterString [] p]\<rparr>,
             (commit oc s)\<lparr>strings := (strings (commit oc s))(p := [])\<rparr>, Returns [] None)"
    if "h = optionStringHandler optionRequiredArg p"
    using I that by simp
  have B: "processArgs pf oc s [''--'' @ name @ ''='']
          = (oc, s, Returns [''--'' @ name @ ''=''] (Some (NumError ''Atoi'' [] ErrSyntax)))"
    if "h = optionIntHandler optionRequiredArg p"
    using I that by (simp add: convInt_def Atoi_empty)
  have C: "processArgs pf oc s [''--'' @ name @ ''='']
          = (oc, s, Returns [''--'' @ name @ ''=''] (Some (NumError ''ParseFloat'' [] e)))"
    if "h = optionFloatHandler optionRequiredArg p" and "pf [] = Inl e"
    using I that by (simp add: convFloat_def)
  have D: "processArgs pf oc s [''--'' @ name]
          = (oc, s, Returns [''--'' @ name] (Some MissingRequiredArgument))"
    if rq: "getType h = optionRequiredArg"
  proof -
    have "processArgs_body pf (handlers oc) [''--'' @ name] = StepReturn MissingRequiredArgument"
      unfolding body_missing_iff using assms rq by simp
    from loop_Return [OF this] show ?thesis by (simp add: processArgs_def)
  qed
  have E: "\<exists>pre tok h'. args = pre @ [tok] \<and> HasPrefix tok ''--'' \<and> drop 2 tok \<noteq> []
           \<and> CHR ''='' \<notin> set (drop 2 tok) \<and> handlers oc (drop 2 tok) = Some h'
           \<and> getType h' = optionRequiredArg"
    if a: "processArgs pf oc s args = (oc', s', Returns r (Some MissingRequiredArgument))"
  proof -
    obtain oc1 res where l: "processArgs_loop pf oc args = (oc1, res)"
      by (cases "processArgs_loop pf oc args")
    from a l have "res = Err MissingRequiredArgument"
      by (cases res) (auto simp: processArgs_def)
    with l show ?thesis by (auto dest: loop_missing)
  qed
  from A B C D E show ?thesis by blast
qed

theorem empty_inline_value_witness:
  "processArgs sampleParseFloat
      \<lparr>handlers = [''value'' \<mapsto> optionFloatHandler optionRequiredArg 0], committers = []\<rparr>
      sampleStore [''--value='']
    = (\<lparr>handlers = [''value'' \<mapsto> optionFloatHandler optionRequiredArg 0], committers = []\<rparr>,
       sampleStore, Returns [''--value=''] (Some (NumError ''ParseFloat'' [] ErrSyntax)))
   \<and> processArgs sampleParseFloat
      \<lparr>handlers = [''value'' \<mapsto> optionFloatHandler optionRequiredArg 0], committers = []\<rparr>
      sampleStore [''--value'']
    = (\<lparr>handlers = [''value'' \<mapsto> optionFloatHandler optionRequiredArg 0], committers = []\<rparr>,
       sampleStore, Returns [''--value''] (Some MissingRequiredArgument))"
proof -
  let ?oc = "\<lparr>handlers = [''value'' \<mapsto> optionFloatHandler optionRequiredArg 0],
      committers = ([] :: real optionCommitter list)\<rparr>"
  have h1: "handlers ?oc ''value'' = Some (optionFloatHandler optionRequiredArg 0)" by simp
  have h2: "''value'' \<noteq> []" by simp
  have h3: "CHR ''='' \<notin> set ''value''" by simp
  have h4: "sampleParseFloat [] = Inl ErrSyntax" by (simp add: sampleParseFloat_def)
  from empty_inline_value [of ?oc "''value''" "optionFloatHandler optionRequiredArg 0" 0
      sampleParseFloat sampleStore ErrSyntax] h1 h2 h3 h4
  show ?thesis by simp
qed

section \<open>C6: commit follows the order of the scan\<close>

text \<open>
  The collection a scan leaves holds, after the committers it started with, the pending
  updates in the order the loop produced them.
\<close>

lemma pending_Continue:
  "processArgs_body pf hs rest = StepContinue c r \<Longrightarrow>
   pendingUpdates pf hs rest = c # pendingUpdates pf hs r"
  by (simp add: pendingUpdates.simps)

lemma pending_stop:
  "processArgs_body pf hs rest = StepBreak x \<Longrightarrow> pendingUpdates pf hs rest = []"
  "processArgs_body pf hs rest = StepReturn e \<Longrightarrow> pendingUpdates pf hs rest = []"
  "processArgs_body pf hs rest = StepPanic \<Longrightarrow> pendingUpdates pf hs rest = []"
  by (simp_all add: pendingUpdates.simps)

lemma loop_pending:
  "processArgs_loop pf oc rest = (oc', res) \<Longrightarrow>
   oc' = oc\<lparr>committers := committers oc @ pendingUpdates pf (handlers oc) rest\<rparr>"
proof (induction pf oc rest arbitrary: oc' res rule: processArgs_loop.induct)
  case (1 pf oc rest)
  show ?case
  proof (cases "processArgs_body pf (handlers oc) rest")
    case (StepContinue c r')
    from 1(2) have "processArgs_loop pf (oc\<lparr>committers := committers oc @ [c]\<rparr>) r' = (oc', res)"
      by (simp add: loop_Continue [OF StepContinue])
    from 1(1) [OF StepContinue this] show ?thesis
      by (simp add: pending_Continue [OF StepContinue])
  next
    case (StepBreak x)
    with 1(2) show ?thesis by (simp add: loop_Break pending_stop)
  next
    case (StepReturn x)
    with 1(2) show ?thesis by (simp add: loop_Return pending_stop)
  next
    case StepPanic
    with 1(2) show ?thesis by (simp add: loop_Panic pending_stop)
  qed
qed

lemma occurrences_loop:
  assumes "handlers oc name = Some h" and "getType h = optionRequiredArg"
    and "name \<noteq> []" and "CHR ''='' \<notin> set name"
    and "list_all2 (\<lambda>ov c. handle pf h [snd ov] = Ok c) occs cs"
  shows "processArgs_loop pf oc (occurrences name occs)
     = (oc\<lparr>committers := committers oc @ cs\<rparr>, Ok [])"
  using assms(5,1)
proof (induction occs cs arbitrary: oc rule: list_all2_induct)
  case Nil
  show ?case by (simp add: loop_Break processArgs_body_def)
next
  case (Cons ov occs c cs)
  obtain inl v where ov: "ov = (inl, v)" by (cases ov)
  let ?oc = "oc\<lparr>committers := committers oc @ [c]\<rparr>"
  from Cons.hyps(1) ov have hc: "handle pf h [v] = Ok c" by simp
  have step: "processArgs_body pf (handlers oc) (occurrences name (ov # occs))
      = StepContinue c (occurrences name occs)"
  proof (cases inl)
    case True
    with ov body_inline [of "handlers oc" name h pf v "occurrences name occs"] Cons.prems assms(3,4) hc
    show ?thesis by (simp add: callHandle_def)
  next
    case False
    with ov body_separate [of "handlers oc" name h pf v "occurrences name occs"] Cons.prems
      assms(2,3,4) hc
    show ?thesis by (simp add: callHandle_def)
  qed
  have "handlers ?oc name = Some h" using Cons.prems by simp
  from Cons.IH [OF this] loop_Continue [OF step] show ?case by simp
qed

lemma occurrences_run:
  assumes "handlers oc name = Some h" and "getType h = optionRequiredArg"
    and "name \<noteq> []" and "CHR ''='' \<notin> set name"
    and "list_all2 (\<lambda>ov c. handle pf h [snd ov] = Ok c) occs cs"
  shows "processArgs pf oc s (occurrences name occs)
     = (oc\<lparr>committers := committers oc @ cs\<rparr>,
        foldl (\<lambda>s e. commit1 e s) (commit oc s) cs, Returns [] None)"
  by (simp add: processArgs_def occurrences_loop [OF assms] commit_def)

lemma fold_ArrayInt:
  "foldl (\<lambda>s e. commit1 e s) s (map (\<lambda>n. optionArrayCommitterInt n p) ns)
     = s\<lparr>intArrays := (intArrays s)(p := intArrays s p @ ns)\<rparr>"
  by (induction ns arbitrary: s) simp_all

lemma fold_ArrayFloat:
  "foldl (\<lambda>s e. commit1 e s) s (map (\<lambda>n. optionArrayCommitterFloat n p) ns)
     = s\<lparr>floatArrays := (floatArrays s)(p := floatArrays s p @ ns)\<rparr>"
  by (induction ns arbitrary: s) simp_all

lemma fold_ArrayString:
  "foldl (\<lambda>s e. commit1 e s) s (map (\<lambda>n. optionArrayCommitterString n p) ns)
     = s\<lparr>stringArrays := (stringArrays s)(p := stringArrays s p @ ns)\<rparr>"
  by (induction ns arbitrary: s) simp_all

lemma fold_SimpleInt:
  "ns \<noteq> [] \<Longrightarrow> foldl (\<lambda>s e. commit1 e s) s (map (\<lambda>n. optionSimpleCommitterInt n p) ns)
     = s\<lparr>ints := (ints s)(p := last ns)\<rparr>"
  by (induction ns rule: rev_nonempty_induct) (simp_all add: fun_upd_def cong: if_cong)

lemma fold_SimpleFloat:
  "ns \<noteq> [] \<Longrightarrow> foldl (\<lambda>s e. commit1 e s) s (map (\<lambda>n. optionSimpleCommitterFloat n p) ns)
     = s\<lparr>floats := (floats s)(p := last ns)\<rparr>"
  by (induction ns rule: rev_nonempty_induct) (simp_all add: fun_upd_def cong: if_cong)

lemma fold_SimpleString:
  "ns \<noteq> [] \<Longrightarrow> foldl (\<lambda>s e. commit1 e s) s (map (\<lambda>n. optionSimpleCommitterString n p) ns)
     = s\<lparr>strings := (strings s)(p := last ns)\<rparr>"
  by (induction ns rule: rev_nonempty_induct) (simp_all add: fun_upd_def cong: if_cong)



lemma converted_occurrences:
  assumes "\<And>v n. conv v = Inr n \<Longrightarrow> handle pf h [v] = Ok (mk n)"
    and "list_all2 (\<lambda>ov n. conv (snd ov) = Inr n) occs ns"
  shows "list_all2 (\<lambda>ov c. handle pf h [snd ov] = Ok c) occs (map mk ns)"
  using assms(2) by (simp add: list_all2_map2) (erule list_all2_mono, erule assms(1))

lemma text_occurrences:
  assumes "\<And>v. handle pf h [v] = Ok (mk v)"
  shows "list_all2 (\<lambda>ov c. handle pf h [snd ov] = Ok c) occs (map mk (map snd occs))"
  by (simp add: list_all2_map2 assms list_all2_same)

text \<open>
  Claim C6. After a successful scan the store is the fold, left to right, of the committers
  over the store before the call: those the collection already held, then the pending
  updates in the order the loop produced them. Hence for an option registered with a
  required-argument handler and a token list made of any number of its occurrences, inline
  or separate, whose values all convert: a sequence option of integer, float or text kind
  ends with its old contents followed by the converted values in encounter order, and a
  scalar option ends with the value of the last occurrence. \<^verbatim>\<open>GetOptions\<close> on
  \<^verbatim>\<open>["--value", "5", "--value=3"]\<close> with \<^verbatim>\<open>"value@"\<close> bound to an integer sequence appends 5
  and then 3.
\<close>

theorem commit_in_scan_order:
  assumes "handlers oc name = Some h" and "name \<noteq> []" and "CHR ''='' \<notin> set name"
  shows "(processArgs pf oc s args = (oc', s', Returns r None) \<longrightarrow>
        oc' = oc\<lparr>committers := committers oc @ pendingUpdates pf (handlers oc) args\<rparr>
        \<and> s' = foldl (\<lambda>s e. commit1 e s) s (committers oc @ pendingUpdates pf (handlers oc) args))
    \<and> (h = optionIntArrayHandler optionRequiredArg p
        \<and> list_all2 (\<lambda>ov n. Atoi (snd ov) = Inr n) occs ns \<longrightarrow>
        processArgs pf oc s (occurrences name occs)
          = (oc\<lparr>committers := committers oc @ map (\<lambda>n. optionArrayCommitterInt n p) ns\<rparr>,
             (commit oc s)\<lparr>intArrays := (intArrays (commit oc s))(p := intArrays (commit oc s) p @ ns)\<rparr>,
             Returns [] None))
    \<and> (h = optionFloatArrayHandler optionRequiredArg p
        \<and> list_all2 (\<lambda>ov x. pf (snd ov) = Inr x) occs fs \<longrightarrow>
        processArgs pf oc s (occurrences name occs)
          = (oc\<lparr>committers := committers oc @ map (\<lambda>x. optionArrayCommitterFloat x p) fs\<rparr>,
             (commit oc s)\<lparr>floatArrays :=
                (floatArrays (commit oc s))(p := floatArrays (commit oc s) p @ fs)\<rparr>,
             Returns [] None))
    \<and> (h = optionStringArrayHandler optionRequiredArg p \<longrightarrow>
        processArgs pf oc s (occurrences name occs)
          = (oc\<lparr>committers :=
                committers oc @ map (\<lambda>v. optionArrayCommitterString v p) (map snd occs)\<rparr>,
             (commit oc s)\<lparr>stringArrays :=
                (stringArrays (commit oc s))(p := stringArrays (commit oc s) p @ map snd occs)\<rparr>,
             Returns [] None))
    \<and> (h = optionIntHandler optionRequiredArg p \<and> occs \<noteq> []
        \<and> list_all2 (\<lambda>ov n. Atoi (snd ov) = Inr n) occs ns \<longrightarrow>
        processArgs pf oc s (occurrences name occs)
          = (oc\<lparr>committers := committers oc @ map (\<lambda>n. optionSimpleCommitterInt n p) ns\<rparr>,
             (commit oc s)\<lparr>ints := (ints (commit oc s))(p := last ns)\<rparr>, Returns [] None))
    \<and> (h = optionFloatHandler optionRequiredArg p \<and> occs \<noteq> []
        \<and> list_all2 (\<lambda>ov x. pf (snd ov) = Inr x) occs fs \<longrightarrow>
        processArgs pf oc s (occurrences name occs)
          = (oc\<lparr>committers := committers oc @ map (\<lambda>x. optionSimpleCommitterFloat x p) fs\<rparr>,
             (commit oc s)\<lparr>floats := (floats (commit oc s))(p := last fs)\<rparr>, Returns [] None))
    \<and> (h = optionStringHandler optionRequiredArg p \<and> occs \<noteq> [] \<longrightarrow>
        processArgs pf oc s (occurrences name occs)
          = (oc\<lparr>committers :=
                committers oc @ map (\<lambda>v. optionSimpleCommitterString v p) (map snd occs)\<rparr>,
             (commit oc s)\<lparr>strings := (strings (commit oc s))(p := snd (last occs))\<rparr>,
             Returns [] None))
    \<and> GetOptions pf s [''--value'', ''5'', ''--value=3''] [AString ''value@'', PIntArray p]
        = (s\<lparr>intArrays := (intArrays s)(p := intArrays s p @ [5, 3])\<rparr>, Returns [] None)"
proof -
  note run = occurrences_run [OF assms(1) _ assms(2,3), of pf occs _ s]
  have G: "oc' = oc\<lparr>committers := committers oc @ pendingUpdates pf (handlers oc) args\<rparr>
        \<and> s' = foldl (\<lambda>s e. commit1 e s) s (committers oc @ pendingUpdates pf (handlers oc) args)"
    if a: "processArgs pf oc s args = (oc', s', Returns r None)"
  proof -
    obtain oc1 res where l: "processArgs_loop pf oc args = (oc1, res)"
      by (cases "processArgs_loop pf oc args")
    from a l have "oc1 = oc' \<and> s' = commit oc' s"
      by (cases res) (auto simp: processArgs_def)
    with loop_pending [OF l] show ?thesis by (simp add: commit_def)
  qed
  have IA: "processArgs pf oc s (occurrences name occs)
          = (oc\<lparr>committers := committers oc @ map (\<lambda>n. optionArrayCommitterInt n p) ns\<rparr>,
             (commit oc s)\<lparr>intArrays := (intArrays (commit oc s))(p := intArrays (commit oc s) p @ ns)\<rparr>,
             Returns [] None)"
    if "h = optionIntArrayHandler optionRequiredArg p"
      and c: "list_all2 (\<lambda>ov n. Atoi (snd ov) = Inr n) occs ns"
  proof -
    have "list_all2 (\<lambda>ov c. handle pf h [snd ov] = Ok c) occs (map (\<lambda>n. optionArrayCommitterInt n p) ns)"
      by (rule converted_occurrences [OF _ c]) (simp add: that(1) convInt_def)
    from run [OF _ this] that(1) show ?thesis by (simp add: fold_ArrayInt)
  qed
  have FA: "processArgs pf oc s (occurrences name occs)
          = (oc\<lparr>committers := committers oc @ map (\<lambda>x. optionArrayCommitterFloat x p) fs\<rparr>,
             (commit oc s)\<lparr>floatArrays :=
                (floatArrays (commit oc s))(p := floatArrays (commit oc s) p @ fs)\<rparr>,
             Returns [] None)"
    if "h = optionFloatArrayHandler optionRequiredArg p"
      and c: "list_all2 (\<lambda>ov x. pf (snd ov) = Inr x) occs fs"
  proof -
    have "list_all2 (\<lambda>ov c. handle pf h [snd ov] = Ok c) occs (map (\<lambda>x. optionArrayCommitterFloat x p) fs)"
      by (rule converted_occurrences [OF _ c]) (simp add: that(1) convFloat_def)
    from run [OF _ this] that(1) show ?thesis by (simp add: fold_ArrayFloat)
  qed
  have SA: "processArgs pf oc s (occurrences name occs)
          = (oc\<lparr>committers :=
                committers oc @ map (\<lambda>v. optionArrayCommitterString v p) (map snd occs)\<rparr>,
             (commit oc s)\<lparr>stringArrays :=
                (stringArrays (commit oc s))(p := stringArrays (commit oc s) p @ map snd occs)\<rparr>,
             Returns [] None)"
    if "h = optionStringArrayHandler optionRequiredArg p"
  proof -
    have "list_all2 (\<lambda>ov c. handle pf h [snd ov] = Ok c) occs
        (map (\<lambda>v. optionArrayCommitterString v p) (map snd occs))"
      by (rule text_occurrences) (simp add: that)
    moreover have "getType h = optionRequiredArg" using that by simp
    ultimately show ?thesis
      using run [of "map (\<lambda>v. optionArrayCommitterString v p) (map snd occs)"]
      by (simp only: fold_ArrayString)
  qed
  have I: "processArgs pf oc s (occurrences name occs)
          = (oc\<lparr>committers := committers oc @ map (\<lambda>n. optionSimpleCommitterInt n p) ns\<rparr>,
             (commit oc s)\<lparr>ints := (ints (commit oc s))(p := last ns)\<rparr>, Returns [] None)"
    if "h = optionIntHandler optionRequiredArg p" and ne: "occs \<noteq> []"
      and c: "list_all2 (\<lambda>ov n. Atoi (snd ov) = Inr n) occs ns"
  proof -
    from ne c have n: "ns \<noteq> []" by (auto dest: list_all2_lengthD)
    have "list_all2 (\<lambda>ov c. handle pf h [snd ov] = Ok c) occs (map (\<lambda>n. optionSimpleCommitterInt n p) ns)"
      by (rule converted_occurrences [OF _ c]) (simp add: that(1) convInt_def)
    from run [OF _ this] that(1) show ?thesis by (simp add: fold_SimpleInt [OF n])
  qed
  have F: "processArgs pf oc s (occurrences name occs)
          = (oc\<lparr>committers := committers oc @ map (\<lambda>x. optionSimpleCommitterFloat x p) fs\<rparr>,
             (commit oc s)\<lparr>floats := (floats (commit oc s))(p := last fs)\<rparr>, Returns [] None)"
    if "h = optionFloatHandler optionRequiredArg p" and ne: "occs \<noteq> []"
      and c: "list_all2 (\<lambda>ov x. pf (snd ov) = Inr x) occs fs"
  proof -
    from ne c have n: "fs \<noteq> []" by (auto dest: list_all2_lengthD)
    have "list_all2 (\<lambda>ov c. handle pf h [snd ov] = Ok c) occs (map (\<lambda>x. optionSimpleCommitterFloat x p) fs)"
      by (rule converted_occurrences [OF _ c]) (simp add: that(1) convFloat_def)
    from run [OF _ this] that(1) show ?thesis by (simp add: fold_SimpleFloat [OF n])
  qed
  have S: "processArgs pf oc s (occurrences name occs)
          = (oc\<lparr>committers :=
                committers oc @ map (\<lambda>v. optionSimpleCommitterString v p) (map snd occs)\<rparr>,
             (commit oc s)\<lparr>strings := (strings (commit oc s))(p := snd (last occs))\<rparr>,
             Returns [] None)"
    if "h = optionStringHandler optionRequiredArg p" and ne: "occs \<noteq> []"
  proof -
    from ne have n: "map snd occs \<noteq> []" by simp
    have "list_all2 (\<lambda>ov c. handle pf h [snd ov] = Ok c) occs
        (map (\<lambda>v. optionSimpleCommitterString v p) (map snd occs))"
      by (rule text_occurrences) (simp add: that(1))
    moreover have "getType h = optionRequiredArg" using that by simp
    ultimately show ?thesis
      using run [of "map (\<lambda>v. optionSimpleCommitterString v p) (map snd occs)"]
      by (simp only: fold_SimpleString [OF n] last_map [OF ne])
  qed
  have ex: "GetOptions pf s [''--value'', ''5'', ''--value=3''] [AString ''value@'', PIntArray p]
        = (s\<lparr>intArrays := (intArrays s)(p := intArrays s p @ [5, 3])\<rparr>, Returns [] None)"
    by (simp add: GetOptions_def register_eval scan_eval HasPrefix_def)
  from G IA FA SA I F S ex show ?thesis by blast
qed


theorem commit_in_scan_order_witness:
  "processArgs sampleParseFloat
      \<lparr>handlers = [''value'' \<mapsto> optionIntArrayHandler optionRequiredArg 0], committers = []\<rparr>
      sampleStore [''--value'', ''5'', ''--value=3'']
    = (\<lparr>handlers = [''value'' \<mapsto> optionIntArrayHandler optionRequiredArg 0],
         committers = [optionArrayCommitterInt 5 0, optionArrayCommitterInt 3 0]\<rparr>,
       sampleStore\<lparr>intArrays := (intArrays sampleStore)(0 := [5, 3])\<rparr>, Returns [] None)"
proof -
  let ?oc = "\<lparr>handlers = [''value'' \<mapsto> optionIntArrayHandler optionRequiredArg 0],
      committers = ([] :: real optionCommitter list)\<rparr>"
  have h1: "handlers ?oc ''value'' = Some (optionIntArrayHandler optionRequiredArg 0)" by simp
  have h2: "''value'' \<noteq> []" by simp
  have h3: "CHR ''='' \<notin> set ''value''" by simp
  have h4: "list_all2 (\<lambda>ov n. Atoi (snd ov) = Inr n) [(False, ''5''), (True, ''3'')] [5, 3]"
    by (simp add: Atoi_def digitVal_def)
  from commit_in_scan_order [of ?oc "''value''" "optionIntArrayHandler optionRequiredArg 0"
      sampleParseFloat sampleStore _ _ _ _ 0 "[(False, ''5''), (True, ''3'')]" "[5, 3]"]
    h1 h2 h3 h4
  show ?thesis by (simp add: commit_def sampleStore_def)
qed

section \<open>C7: the end-of-options marker\<close>

lemma marker_token: "HasPrefix tok ''--'' \<Longrightarrow> length (drop 2 tok) = 0 \<Longrightarrow> tok = ''--''"
  by (simp add: HasPrefix_def)

lemma callHandle_iff:
  "(callHandle pf h z r = StepContinue c r') = (handle pf h z = Ok c \<and> r' = r)"
  by (auto simp: callHandle_def split: result.splits)

lemma optionType_required:
  "t \<noteq> optionNoArg \<Longrightarrow> t \<noteq> optionOptionalArg \<Longrightarrow> t = optionRequiredArg"
  by (cases t) auto

text \<open>
  An iteration that goes round again does the same with more tokens behind, when the first
  of them looks like an option (so that an optional argument still counts as absent).
\<close>

lemma body_append:
  assumes "processArgs_body pf hs pre = StepContinue c r" and "HasPrefix tok ''--''"
  shows "processArgs_body pf hs (pre @ tok # post) = StepContinue c (r @ tok # post)"
proof -
  from assms(1) obtain tok0 rest1 where pre: "pre = tok0 # rest1"
    by (cases pre) (auto simp: processArgs_body_def)
  show ?thesis
  proof (cases rest1)
    case Nil
    with assms pre show ?thesis
      by (auto simp: processArgs_body_def Let_def callHandle_iff
          split: if_splits option.splits dest: optionType_required)
  next
    case (Cons a as)
    with assms pre show ?thesis
      by (auto simp: processArgs_body_def Let_def callHandle_iff
          split: if_splits option.splits)
  qed
qed


lemma body_Break_empty:
  assumes "processArgs_body pf hs pre = StepBreak []" and "''--'' \<notin> set pre"
  shows "pre = []"
proof (cases pre)
  case (Cons tok0 rest1)
  with assms show ?thesis
    by (auto simp: processArgs_body_def Let_def callHandle_def
        split: if_splits option.splits result.splits dest: marker_token)
qed simp

lemma loop_reaches_marker:
  "processArgs_loop pf oc pre = (oc1, Ok []) \<Longrightarrow> ''--'' \<notin> set pre \<Longrightarrow>
   processArgs_loop pf oc (pre @ ''--'' # post) = (oc1, Ok post)"
proof (induction pf oc pre arbitrary: oc1 rule: processArgs_loop.induct)
  case (1 pf oc pre)
  show ?case
  proof (cases "processArgs_body pf (handlers oc) pre")
    case (StepContinue c r)
    from "1.prems"(1) have l: "processArgs_loop pf (oc\<lparr>committers := committers oc @ [c]\<rparr>) r
        = (oc1, Ok [])"
      by (simp add: loop_Continue [OF StepContinue])
    from body_continue_suffix [OF StepContinue] "1.prems"(2) have "''--'' \<notin> set r" by auto
    from "1.IH" [OF StepContinue l this]
    have "processArgs_loop pf (oc\<lparr>committers := committers oc @ [c]\<rparr>) (r @ ''--'' # post)
        = (oc1, Ok post)" .
    moreover have "processArgs_body pf (handlers oc) (pre @ ''--'' # post)
        = StepContinue c (r @ ''--'' # post)"
      by (rule body_append [OF StepContinue]) (simp add: HasPrefix_def)
    ultimately show ?thesis by (simp add: loop_Continue)
  next
    case (StepBreak x)
    with "1.prems"(1) have "x = []" and "oc1 = oc" by (simp_all add: loop_Break)
    with StepBreak "1.prems"(2) have "pre = []" by (auto dest: body_Break_empty)
    with \<open>oc1 = oc\<close> show ?thesis by (simp add: loop_Break body_marker)
  next
    case (StepReturn x)
    with "1.prems"(1) show ?thesis by (simp add: loop_Return)
  next
    case StepPanic
    with "1.prems"(1) show ?thesis by (simp add: loop_Panic)
  qed
qed

text \<open>
  Claim C7 says that in every token list a token that is exactly \<^verbatim>\<open>--\<close> stops the scan, is
  consumed and stays out of the remainder. The loop gives the token that meaning only when
  it is the current token. After an option that requires an argument the next token is
  taken as the value whatever it is: on \<^verbatim>\<open>["--name", "--", "--flag"]\<close> with \<^verbatim>\<open>"name=s"\<close> and a
  plain flag, \<^verbatim>\<open>--\<close> is stored as the text, the scan goes on, the flag is set and the
  remainder is empty. And once the scan has stopped at a token that is no option, a later
  \<^verbatim>\<open>--\<close> stays in the remainder: \<^verbatim>\<open>["x", "--", "y"]\<close> is returned whole.
\<close>

theorem end_of_options_marker_counterexample:
  "GetOptions sampleParseFloat sampleStore [''--name'', ''--'', ''--flag'']
      [AString ''name=s'', PString 0, AString ''flag'', PBool 0]
     = (sampleStore\<lparr>strings := (strings sampleStore)(0 := ''--''),
                     bools := (bools sampleStore)(0 := True)\<rparr>, Returns [] None)
   \<and> GetOptions sampleParseFloat sampleStore [''x'', ''--'', ''y''] [AString ''flag'', PBool 0]
     = (sampleStore, Returns [''x'', ''--'', ''y''] None)"
  by (simp add: GetOptions_def register_eval scan_eval HasPrefix_def)

text \<open>
  Claim C7, amended. A token that is exactly \<^verbatim>\<open>--\<close> stops scanning without error, is itself
  consumed and does not appear in the remainder, while every token after it does, whenever
  it is the current token of the scan: for every state of the collection and every list of
  tokens after it; and so in every token list whose tokens before the first \<^verbatim>\<open>--\<close> are all
  consumed as options and their values (scanned alone they succeed with an empty
  remainder), where the collection and the store are then the ones that scan gives.
  \<^verbatim>\<open>GetOptions\<close> on \<^verbatim>\<open>["--flag", "--", "x"]\<close> with a plain flag bound to a boolean sets it and
  returns \<^verbatim>\<open>["x"]\<close>.
\<close>

theorem end_of_options_marker:
  "processArgs_loop pf oc (''--'' # post) = (oc, Ok post)
   \<and> processArgs pf oc s (''--'' # post) = (oc, commit oc s, Returns post None)
   \<and> (processArgs pf oc s pre = (oc1, s1, Returns [] None) \<and> ''--'' \<notin> set pre \<longrightarrow>
        processArgs pf oc s (pre @ ''--'' # post) = (oc1, s1, Returns post None))
   \<and> GetOptions pf s [''--flag'', ''--'', ''x''] [AString ''flag'', PBool p]
       = (s\<lparr>bools := (bools s)(p := True)\<rparr>, Returns [''x''] None)"
proof -
  have l: "processArgs_loop pf oc (''--'' # post) = (oc, Ok post)"
    for oc :: "'a optionCollection" and post
    by (rule loop_Break) (rule body_marker)
  have m: "processArgs pf oc s (''--'' # post) = (oc, commit oc s, Returns post None)"
    by (simp add: processArgs_def l)
  have c: "processArgs pf oc s (pre @ ''--'' # post) = (oc1, s1, Returns post None)"
    if a: "processArgs pf oc s pre = (oc1, s1, Returns [] None)" and n: "''--'' \<notin> set pre"
  proof -
    obtain oc2 res where lp: "processArgs_loop pf oc pre = (oc2, res)"
      by (cases "processArgs_loop pf oc pre")
    from a lp have "res = Ok [] \<and> oc2 = oc1 \<and> s1 = commit oc1 s"
      by (cases res) (auto simp: processArgs_def)
    with lp loop_reaches_marker [of pf oc pre oc1 post] n show ?thesis
      by (simp add: processArgs_def)
  qed
  have ex: "GetOptions pf s [''--flag'', ''--'', ''x''] [AString ''flag'', PBool p]
       = (s\<lparr>bools := (bools s)(p := True)\<rparr>, Returns [''x''] None)"
    by (simp add: GetOptions_def register_eval scan_eval)
  from l m c ex show ?thesis by blast
qed

theorem end_of_options_marker_witness:
  "processArgs sampleParseFloat
      \<lparr>handlers = [''flag'' \<mapsto> optionSimpleHandler optionNoArg True 0], committers = []\<rparr>
      sampleStore [''--flag'']
     = (\<lparr>handlers = [''flag'' \<mapsto> optionSimpleHandler optionNoArg True 0],
          committers = [optionSimpleCommitterBool True 0]\<rparr>,
        sampleStore\<lparr>bools := (bools sampleStore)(0 := True)\<rparr>, Returns [] None)
   \<and> ''--'' \<notin> set [''--flag'']
   \<and> processArgs sampleParseFloat
      \<lparr>handlers = [''flag'' \<mapsto> optionSimpleHandler optionNoArg True 0], committers = []\<rparr>
      sampleStore [''--flag'', ''--'', ''x'', ''--flag'']
     = (\<lparr>handlers = [''flag'' \<mapsto> optionSimpleHandler optionNoArg True 0],
          committers = [optionSimpleCommitterBool True 0]\<rparr>,
        sampleStore\<lparr>bools := (bools sampleStore)(0 := True)\<rparr>, Returns [''x'', ''--flag''] None)"
proof -
  let ?oc = "\<lparr>handlers = [''flag'' \<mapsto> optionSimpleHandler optionNoArg True 0],
      committers = ([] :: real optionCommitter list)\<rparr>"
  let ?oc' = "\<lparr>handlers = [''flag'' \<mapsto> optionSimpleHandler optionNoArg True 0],
      committers = [optionSimpleCommitterBool True 0 :: real optionCommitter]\<rparr>"
  have h1: "processArgs sampleParseFloat ?oc sampleStore [''--flag'']
     = (?oc', sampleStore\<lparr>bools := (bools sampleStore)(0 := True)\<rparr>, Returns [] None)"
    by (simp add: scan_eval)
  have h2: "''--'' \<notin> set [''--flag'']" by simp
  from end_of_options_marker [of sampleParseFloat ?oc "[''x'', ''--flag'']" sampleStore
      "[''--flag'']" ?oc' "sampleStore\<lparr>bools := (bools sampleStore)(0 := True)\<rparr>" 0] h1 h2
  show ?thesis by simp
qed

end
